theory Spec2Isabelle
  imports Complex_Main
begin

section \<open>Values\<close>

text \<open>
  The program works on what \<^verbatim>\<open>json.load\<close> returns: \<^verbatim>\<open>None\<close>, booleans, unbounded
  integers, floats, strings, lists and dictionaries with string keys. The type of floats
  is a parameter \<open>'f\<close>; its arithmetic is the record \<open>arith\<close> below, so that nothing
  proved here depends on how binary64 rounds. A dictionary is the list of its items in
  insertion order.
\<close>

datatype 'f json =
    JNull
  | JBool bool
  | JInt int
  | JFloat 'f
  | JStr string
  | JList "'f json list"
  | JObj "(string \<times> 'f json) list"

text \<open>The exceptions the code can raise on such values.\<close>

datatype py_error = TypeError | KeyError | AttributeError | OverflowError

text \<open>
  Float arithmetic as Python exposes it: \<open>fzero\<close> is \<^verbatim>\<open>0.0\<close>, \<open>float_of_int\<close> is the
  conversion of an integer operand (\<open>None\<close> where Python raises \<^verbatim>\<open>OverflowError\<close>),
  \<open>feq\<close> and \<open>feq_int\<close> decide whether a float dictionary key matches a float or an
  integer, \<open>fnonzero\<close> is the truth value of a float.
\<close>

record 'f arith =
  fzero :: 'f
  fadd :: "'f \<Rightarrow> 'f \<Rightarrow> 'f"
  fsub :: "'f \<Rightarrow> 'f \<Rightarrow> 'f"
  fmul :: "'f \<Rightarrow> 'f \<Rightarrow> 'f"
  float_of_int :: "int \<Rightarrow> 'f option"
  feq :: "'f \<Rightarrow> 'f \<Rightarrow> bool"
  feq_int :: "'f \<Rightarrow> int \<Rightarrow> bool"
  fnonzero :: "'f \<Rightarrow> bool"

text \<open>\<^verbatim>\<open>len(x)\<close>: defined on lists, dictionaries and strings.\<close>

fun py_len :: "'f json \<Rightarrow> py_error + nat" where
  "py_len (JList xs) = Inr (length xs)"
| "py_len (JObj kvs) = Inr (length kvs)"
| "py_len (JStr s) = Inr (length s)"
| "py_len _ = Inl TypeError"

text \<open>
  \<^verbatim>\<open>for x in v\<close>: a list yields its elements, a dictionary its keys, a string its
  characters; nothing else is iterable.
\<close>

fun py_iter :: "'f json \<Rightarrow> py_error + 'f json list" where
  "py_iter (JList xs) = Inr xs"
| "py_iter (JObj kvs) = Inr (map (\<lambda>kv. JStr (fst kv)) kvs)"
| "py_iter (JStr s) = Inr (map (\<lambda>c. JStr [c]) s)"
| "py_iter _ = Inl TypeError"

text \<open>The truth value of a value, as \<^verbatim>\<open>if not x\<close> tests it.\<close>

fun py_truthy :: "'f arith \<Rightarrow> 'f json \<Rightarrow> bool" where
  "py_truthy A JNull = False"
| "py_truthy A (JBool b) = b"
| "py_truthy A (JInt i) = (i \<noteq> 0)"
| "py_truthy A (JFloat f) = fnonzero A f"
| "py_truthy A (JStr s) = (s \<noteq> [])"
| "py_truthy A (JList xs) = (xs \<noteq> [])"
| "py_truthy A (JObj kvs) = (kvs \<noteq> [])"

text \<open>
  \<^verbatim>\<open>x[key]\<close> with a string key: a dictionary looks the key up (\<^verbatim>\<open>KeyError\<close> when it
  is missing); every other value raises \<^verbatim>\<open>TypeError\<close>.
\<close>

fun py_getitem :: "'f json \<Rightarrow> string \<Rightarrow> py_error + 'f json" where
  "py_getitem (JObj kvs) key = (case map_of kvs key of None \<Rightarrow> Inl KeyError | Some v \<Rightarrow> Inr v)"
| "py_getitem _ key = Inl TypeError"

text \<open>\<^verbatim>\<open>x.get(key, default)\<close>: only a dictionary has the method.\<close>

fun py_get :: "'f json \<Rightarrow> string \<Rightarrow> 'f json \<Rightarrow> py_error + 'f json" where
  "py_get (JObj kvs) key dflt = Inr (case map_of kvs key of None \<Rightarrow> dflt | Some v \<Rightarrow> v)"
| "py_get _ key dflt = Inl AttributeError"

text \<open>Lists and dictionaries cannot be dictionary keys.\<close>

fun hashable :: "'f json \<Rightarrow> bool" where
  "hashable (JList xs) = False"
| "hashable (JObj kvs) = False"
| "hashable _ = True"

text \<open>The numeric reading of a value: booleans are the integers 0 and 1.\<close>

fun num_of :: "'f json \<Rightarrow> (int + 'f) option" where
  "num_of (JBool b) = Some (Inl (if b then 1 else 0))"
| "num_of (JInt i) = Some (Inl i)"
| "num_of (JFloat f) = Some (Inr f)"
| "num_of _ = None"

text \<open>
  Equality of dictionary keys: strings by content, \<^verbatim>\<open>None\<close> with itself, numbers by
  value across \<^verbatim>\<open>bool\<close>, \<^verbatim>\<open>int\<close> and \<^verbatim>\<open>float\<close>.
\<close>

fun key_eq :: "'f arith \<Rightarrow> 'f json \<Rightarrow> 'f json \<Rightarrow> bool" where
  "key_eq A (JStr a) (JStr b) = (a = b)"
| "key_eq A JNull JNull = True"
| "key_eq A x y =
     (case (num_of x, num_of y) of
        (Some (Inl i), Some (Inl j)) \<Rightarrow> i = j
      | (Some (Inl i), Some (Inr g)) \<Rightarrow> feq_int A g i
      | (Some (Inr f), Some (Inl j)) \<Rightarrow> feq_int A f j
      | (Some (Inr f), Some (Inr g)) \<Rightarrow> feq A f g
      | _ \<Rightarrow> False)"

text \<open>
  A dictionary as the list of its items in insertion order. \<open>dict_set\<close> is
  \<^verbatim>\<open>d[k] = v\<close>: an existing key keeps its place and gets the new value, a new key goes
  to the end.
\<close>

fun dict_find :: "('k \<Rightarrow> 'k \<Rightarrow> bool) \<Rightarrow> ('k \<times> 'v) list \<Rightarrow> 'k \<Rightarrow> 'v option" where
  "dict_find eq [] k = None"
| "dict_find eq (kv # d) k = (if eq (fst kv) k then Some (snd kv) else dict_find eq d k)"

fun dict_set :: "('k \<Rightarrow> 'k \<Rightarrow> bool) \<Rightarrow> ('k \<times> 'v) list \<Rightarrow> 'k \<Rightarrow> 'v \<Rightarrow> ('k \<times> 'v) list" where
  "dict_set eq [] k v = [(k, v)]"
| "dict_set eq (kv # d) k v =
     (if eq (fst kv) k then (fst kv, v) # d else kv # dict_set eq d k v)"

text \<open>
  \<^verbatim>\<open>x * y\<close>. Numbers multiply (an integer operand of a float product is converted
  first); a string or list times an integer is repeated; everything else raises
  \<^verbatim>\<open>TypeError\<close>. Memory limits on repetition are not modelled.
\<close>

fun seq_repeat :: "'f json \<Rightarrow> int \<Rightarrow> py_error + 'f json" where
  "seq_repeat (JStr s) n = Inr (JStr (concat (replicate (nat n) s)))"
| "seq_repeat (JList xs) n = Inr (JList (concat (replicate (nat n) xs)))"
| "seq_repeat _ n = Inl TypeError"

definition py_mul :: "'f arith \<Rightarrow> 'f json \<Rightarrow> 'f json \<Rightarrow> py_error + 'f json" where
  "py_mul A x y =
     (case (num_of x, num_of y) of
        (Some (Inl i), Some (Inl j)) \<Rightarrow> Inr (JInt (i * j))
      | (Some (Inl i), Some (Inr g)) \<Rightarrow>
          (case float_of_int A i of None \<Rightarrow> Inl OverflowError | Some f \<Rightarrow> Inr (JFloat (fmul A f g)))
      | (Some (Inr f), Some (Inl j)) \<Rightarrow>
          (case float_of_int A j of None \<Rightarrow> Inl OverflowError | Some g \<Rightarrow> Inr (JFloat (fmul A f g)))
      | (Some (Inr f), Some (Inr g)) \<Rightarrow> Inr (JFloat (fmul A f g))
      | (None, Some (Inl j)) \<Rightarrow> seq_repeat x j
      | (Some (Inl i), None) \<Rightarrow> seq_repeat y i
      | _ \<Rightarrow> Inl TypeError)"

text \<open>\<^verbatim>\<open>total += x\<close> where \<^verbatim>\<open>total\<close> is a float: the result is a float again.\<close>

definition float_iadd :: "'f arith \<Rightarrow> 'f \<Rightarrow> 'f json \<Rightarrow> py_error + 'f" where
  "float_iadd A acc x =
     (case num_of x of
        None \<Rightarrow> Inl TypeError
      | Some (Inl i) \<Rightarrow>
          (case float_of_int A i of None \<Rightarrow> Inl OverflowError | Some f \<Rightarrow> Inr (fadd A acc f))
      | Some (Inr f) \<Rightarrow> Inr (fadd A acc f))"

text \<open>The decimal numeral of a natural number, as an f-string renders an index.\<close>

definition digit_char :: "nat \<Rightarrow> char" where
  "digit_char d = ''0123456789'' ! d"

fun str_of_nat :: "nat \<Rightarrow> string" where
  "str_of_nat n = (if n < 10 then [digit_char n] else str_of_nat (n div 10) @ [digit_char (n mod 10)])"

declare str_of_nat.simps [simp del]

section \<open>The world: files, console, writes\<close>

text \<open>
  A file is identified with what \<^verbatim>\<open>json.load\<close> makes of it: a document, or text that
  is not JSON. \<open>Report\<close> is the text \<^verbatim>\<open>save_results\<close> writes (the totals in order and the
  execution time); it starts with a letter and is never valid JSON. Every path is
  either absent or a readable regular file.
\<close>

datatype 'f content =
    Doc "'f json"
  | Malformed
  | Report "(string \<times> 'f) list" 'f

text \<open>One constructor for each \<^verbatim>\<open>print\<close> call of the program, with its format arguments.\<close>

datatype 'f event =
    Loading string
  | Loaded string nat
  | LoadError string
  | ProductListEmpty
  | Generated string nat
  | Warning "'f json"
  | Usage
  | CatalogueError
  | SalesFileError string
  | ResultText "(string \<times> 'f) list" 'f

record 'f world =
  files :: "string \<Rightarrow> 'f content option"
  out :: "'f event list"
  writes :: "string list"

definition emit :: "'f event \<Rightarrow> 'f world \<Rightarrow> 'f world" where
  "emit e w = w\<lparr>out := out w @ [e]\<rparr>"

definition write_file :: "string \<Rightarrow> 'f content \<Rightarrow> 'f world \<Rightarrow> 'f world" where
  "write_file path c w = w\<lparr>files := (files w)(path \<mapsto> c), writes := writes w @ [path]\<rparr>"

section \<open>compute\_total\_sales\<close>

text \<open>The dictionary comprehension that builds \<^verbatim>\<open>product_prices\<close>.\<close>

fun build_prices ::
  "'f arith \<Rightarrow> 'f json list \<Rightarrow> ('f json \<times> 'f json) list \<Rightarrow> py_error + ('f json \<times> 'f json) list" where
  "build_prices A [] d = Inr d"
| "build_prices A (product # rest) d =
     (case py_getitem product ''title'' of
        Inl e \<Rightarrow> Inl e
      | Inr title \<Rightarrow>
          (case py_getitem product ''price'' of
             Inl e \<Rightarrow> Inl e
           | Inr price \<Rightarrow>
               if \<not> hashable title then Inl TypeError
               else build_prices A rest (dict_set (key_eq A) d title price)))"

text \<open>The inner loop over the sale records of one file.\<close>

fun process_sales ::
  "'f arith \<Rightarrow> ('f json \<times> 'f json) list \<Rightarrow> 'f json list \<Rightarrow> 'f \<Rightarrow> 'f world \<Rightarrow>
   'f world \<times> (py_error + 'f)" where
  "process_sales A product_prices [] total_sales w = (w, Inr total_sales)"
| "process_sales A product_prices (sale # rest) total_sales w =
     (case py_get sale ''Product'' JNull of
        Inl e \<Rightarrow> (w, Inl e)
      | Inr product_name \<Rightarrow>
          (case py_get sale ''Quantity'' (JInt 0) of
             Inl e \<Rightarrow> (w, Inl e)
           | Inr quantity \<Rightarrow>
               if \<not> hashable product_name then (w, Inl TypeError)
               else
                 (case dict_find (key_eq A) product_prices product_name of
                    Some price \<Rightarrow>
                      (case py_mul A price quantity of
                         Inl e \<Rightarrow> (w, Inl e)
                       | Inr amount \<Rightarrow>
                           (case float_iadd A total_sales amount of
                              Inl e \<Rightarrow> (w, Inl e)
                            | Inr total_sales' \<Rightarrow>
                                process_sales A product_prices rest total_sales' w))
                  | None \<Rightarrow>
                      process_sales A product_prices rest total_sales
                        (emit (Warning product_name) w))))"

declare process_sales.simps(2) [simp del]

definition sales_file_label :: "nat \<Rightarrow> string" where
  "sales_file_label idx = ''Sales File '' @ str_of_nat idx"

definition total_label :: string where
  "total_label = ''Total Combined Sales''"

text \<open>The outer loop, \<^verbatim>\<open>enumerate(sales_data_list, start=1)\<close>.\<close>

fun process_files ::
  "'f arith \<Rightarrow> ('f json \<times> 'f json) list \<Rightarrow> 'f json list \<Rightarrow> nat \<Rightarrow> (string \<times> 'f) list \<Rightarrow> 'f \<Rightarrow>
   'f world \<Rightarrow> 'f world \<times> (py_error + (string \<times> 'f) list \<times> 'f)" where
  "process_files A product_prices [] idx total_sales_per_file total_combined_sales w =
     (w, Inr (total_sales_per_file, total_combined_sales))"
| "process_files A product_prices (sales_data # rest) idx total_sales_per_file total_combined_sales w =
     (case py_iter sales_data of
        Inl e \<Rightarrow> (w, Inl e)
      | Inr sales \<Rightarrow>
          (case process_sales A product_prices sales (fzero A) w of
             (w', Inl e) \<Rightarrow> (w', Inl e)
           | (w', Inr total_sales) \<Rightarrow>
               process_files A product_prices rest (Suc idx)
                 (dict_set (=) total_sales_per_file (sales_file_label idx) total_sales)
                 (fadd A total_combined_sales total_sales) w'))"

definition compute_total_sales ::
  "'f arith \<Rightarrow> 'f json \<Rightarrow> 'f json list \<Rightarrow> 'f world \<Rightarrow> 'f world \<times> (py_error + (string \<times> 'f) list)" where
  "compute_total_sales A product_catalogue sales_data_list w =
     (case py_iter product_catalogue of
        Inl e \<Rightarrow> (w, Inl e)
      | Inr products \<Rightarrow>
          (case build_prices A products [] of
             Inl e \<Rightarrow> (w, Inl e)
           | Inr product_prices \<Rightarrow>
               (case process_files A product_prices sales_data_list 1 [] (fzero A) w of
                  (w', Inl e) \<Rightarrow> (w', Inl e)
                | (w', Inr (total_sales_per_file, total_combined_sales)) \<Rightarrow>
                    (w', Inr (dict_set (=) total_sales_per_file total_label total_combined_sales)))))"

section \<open>load\_json\_file and generate\_price\_catalogue\<close>

text \<open>
  \<^verbatim>\<open>load_json_file\<close> catches \<^verbatim>\<open>FileNotFoundError\<close> and \<^verbatim>\<open>JSONDecodeError\<close> only: the
  \<^verbatim>\<open>TypeError\<close> of \<^verbatim>\<open>len(data)\<close> on a document that has no length escapes.
\<close>

definition load_json_file :: "string \<Rightarrow> 'f world \<Rightarrow> 'f world \<times> (py_error + 'f json)" where
  "load_json_file filename w =
     (let w1 = emit (Loading filename) w in
      case files w1 filename of
        Some (Doc data) \<Rightarrow>
          (case py_len data of
             Inl e \<Rightarrow> (w1, Inl e)
           | Inr n \<Rightarrow> (emit (Loaded filename n) w1, Inr data))
      | _ \<Rightarrow> (emit (LoadError filename) w1, Inr (JList [])))"

text \<open>The list comprehension that projects every item to its title and price.\<close>

fun catalogue_entries :: "'f json list \<Rightarrow> py_error + 'f json list" where
  "catalogue_entries [] = Inr []"
| "catalogue_entries (item # rest) =
     (case py_getitem item ''title'' of
        Inl e \<Rightarrow> Inl e
      | Inr title \<Rightarrow>
          (case py_getitem item ''price'' of
             Inl e \<Rightarrow> Inl e
           | Inr price \<Rightarrow>
               (case catalogue_entries rest of
                  Inl e \<Rightarrow> Inl e
                | Inr entries \<Rightarrow> Inr (JObj [(''title'', title), (''price'', price)] # entries))))"

definition generate_price_catalogue ::
  "'f arith \<Rightarrow> string \<Rightarrow> string \<Rightarrow> 'f world \<Rightarrow> 'f world \<times> (py_error + 'f json)" where
  "generate_price_catalogue A product_list_file catalogue_file w =
     (if files w catalogue_file \<noteq> None then load_json_file catalogue_file w
      else
        (case load_json_file product_list_file w of
           (w1, Inl e) \<Rightarrow> (w1, Inl e)
         | (w1, Inr product_list) \<Rightarrow>
             if \<not> py_truthy A product_list then (emit ProductListEmpty w1, Inr (JList []))
             else
               (case py_iter product_list of
                  Inl e \<Rightarrow> (w1, Inl e)
                | Inr items \<Rightarrow>
                    (case catalogue_entries items of
                       Inl e \<Rightarrow> (w1, Inl e)
                     | Inr catalogue_data \<Rightarrow>
                         (emit (Generated catalogue_file (length catalogue_data))
                            (write_file catalogue_file (Doc (JList catalogue_data)) w1),
                          Inr (JList catalogue_data))))))"

section \<open>save\_results and main\<close>

definition save_results :: "(string \<times> 'f) list \<Rightarrow> 'f \<Rightarrow> string \<Rightarrow> 'f world \<Rightarrow> 'f world" where
  "save_results total_sales_data execution_time output_file w =
     write_file output_file (Report total_sales_data execution_time)
       (emit (ResultText total_sales_data execution_time) w)"

text \<open>
  How a run ends: \<open>Finished\<close> is the normal return, \<open>Exited n\<close> is \<^verbatim>\<open>sys.exit(n)\<close>,
  \<open>Uncaught e\<close> is an exception nobody catches (the interpreter prints the traceback and
  the exit status is 1).
\<close>

datatype outcome = Finished | Exited nat | Uncaught py_error

fun exit_status :: "outcome \<Rightarrow> nat" where
  "exit_status Finished = 0"
| "exit_status (Exited n) = n"
| "exit_status (Uncaught e) = 1"

text \<open>The list comprehension that loads every sales file, in order.\<close>

fun load_sales_files :: "string list \<Rightarrow> 'f world \<Rightarrow> 'f world \<times> (py_error + 'f json list)" where
  "load_sales_files [] w = (w, Inr [])"
| "load_sales_files (sales_file # rest) w =
     (case load_json_file sales_file w of
        (w1, Inl e) \<Rightarrow> (w1, Inl e)
      | (w1, Inr sales_data) \<Rightarrow>
          (case load_sales_files rest w1 of
             (w2, Inl e) \<Rightarrow> (w2, Inl e)
           | (w2, Inr sales_data_list) \<Rightarrow> (w2, Inr (sales_data # sales_data_list))))"

definition catalogue_path :: string where
  "catalogue_path = ''priceCatalogue.json''"

definition results_path :: string where
  "results_path = ''SalesResults.txt''"

text \<open>
  \<open>argv\<close> is \<^verbatim>\<open>sys.argv\<close> (the script name first); \<open>start_time\<close> and \<open>end_time\<close> are the
  two readings of the clock.
\<close>

definition main :: "'f arith \<Rightarrow> string list \<Rightarrow> 'f \<Rightarrow> 'f \<Rightarrow> 'f world \<Rightarrow> 'f world \<times> outcome" where
  "main A argv start_time end_time w =
     (if length argv < 3 then (emit Usage w, Exited 1)
      else
        (let product_list_file = argv ! 1; sales_files = drop 2 argv in
         case generate_price_catalogue A product_list_file catalogue_path w of
           (w1, Inl e) \<Rightarrow> (w1, Uncaught e)
         | (w1, Inr product_catalogue) \<Rightarrow>
             if \<not> py_truthy A product_catalogue then (emit CatalogueError w1, Exited 1)
             else
               (case load_sales_files sales_files w1 of
                  (w2, Inl e) \<Rightarrow> (w2, Uncaught e)
                | (w2, Inr sales_data_list) \<Rightarrow>
                    (case find (\<lambda>fd. \<not> py_truthy A (snd fd)) (zip sales_files sales_data_list) of
                       Some fd \<Rightarrow> (emit (SalesFileError (fst fd)) w2, Exited 1)
                     | None \<Rightarrow>
                         (case compute_total_sales A product_catalogue sales_data_list w2 of
                            (w3, Inl e) \<Rightarrow> (w3, Uncaught e)
                          | (w3, Inr total_sales_data) \<Rightarrow>
                              (save_results total_sales_data (fsub A end_time start_time)
                                 results_path w3,
                               Finished))))))"

section \<open>An arithmetic for concrete runs\<close>

text \<open>
  Exact rational arithmetic. It agrees with binary64 wherever no rounding happens, as in
  the runs on small integers evaluated below.
\<close>

definition exact_arith :: "rat arith" where
  "exact_arith =
     \<lparr>fzero = 0, fadd = (+), fsub = (-), fmul = (*),
      float_of_int = (\<lambda>i. Some (of_int i)),
      feq = (=), feq_int = (\<lambda>f i. f = of_int i), fnonzero = (\<lambda>f. f \<noteq> 0)\<rparr>"

definition empty_world :: "rat world" where
  "empty_world = \<lparr>files = Map.empty, out = [], writes = []\<rparr>"

section \<open>Notions used in the statements\<close>

text \<open>The per-file entries of a result: those labelled \<^verbatim>\<open>Sales File <n>\<close>.\<close>

definition per_file_entries :: "(string \<times> 'f) list \<Rightarrow> (string \<times> 'f) list" where
  "per_file_entries res = filter (\<lambda>kv. take 11 (fst kv) = ''Sales File '') res"

text \<open>A catalogue entry the price lookup accepts: a dictionary with a hashable title and a price.\<close>

fun catalogue_entry_ok :: "'f json \<Rightarrow> bool" where
  "catalogue_entry_ok (JObj kvs) =
     (case map_of kvs ''title'' of
        None \<Rightarrow> False
      | Some title \<Rightarrow> hashable title \<and> map_of kvs ''price'' \<noteq> None)"
| "catalogue_entry_ok _ = False"

text \<open>A small run: one product, two sales files, the second naming an unknown product.\<close>

definition demo_catalogue :: "rat json" where
  "demo_catalogue = JList [JObj [(''title'', JStr ''Widget''), (''price'', JInt 2)]]"

definition demo_sales :: "rat json list" where
  "demo_sales =
     [JList [JObj [(''Product'', JStr ''Widget''), (''Quantity'', JInt 3)]],
      JList [JObj [(''Product'', JStr ''Gadget''), (''Quantity'', JInt 5)],
             JObj [(''Product'', JStr ''Widget''), (''Quantity'', JInt 1)]]]"

definition demo_totals :: "(string \<times> rat) list" where
  "demo_totals = [(''Sales File 1'', 6), (''Sales File 2'', 2), (''Total Combined Sales'', 8)]"

text \<open>
  One iteration of the inner loop of \<^verbatim>\<open>compute_total_sales\<close>, as a value: the error it
  raises, or the new running total and what it prints.
\<close>

definition sale_effect ::
  "'f arith \<Rightarrow> ('f json \<times> 'f json) list \<Rightarrow> 'f json \<Rightarrow> 'f \<Rightarrow> py_error + 'f \<times> 'f event list" where
  "sale_effect A product_prices sale total_sales =
     (case py_get sale ''Product'' JNull of
        Inl e \<Rightarrow> Inl e
      | Inr product_name \<Rightarrow>
          (case py_get sale ''Quantity'' (JInt 0) of
             Inl e \<Rightarrow> Inl e
           | Inr quantity \<Rightarrow>
               if \<not> hashable product_name then Inl TypeError
               else
                 (case dict_find (key_eq A) product_prices product_name of
                    Some price \<Rightarrow>
                      (case py_mul A price quantity of
                         Inl e \<Rightarrow> Inl e
                       | Inr amount \<Rightarrow>
                           (case float_iadd A total_sales amount of
                              Inl e \<Rightarrow> Inl e
                            | Inr total_sales' \<Rightarrow> Inr (total_sales', [])))
                  | None \<Rightarrow> Inr (total_sales, [Warning product_name]))))"

text \<open>The world after some more lines on the console.\<close>

definition printed :: "'f event list \<Rightarrow> 'f world \<Rightarrow> 'f world" where
  "printed evs w = w\<lparr>out := out w @ evs\<rparr>"

text \<open>The same run without the record that names the unknown product.\<close>

definition demo_sales_known :: "rat json list" where
  "demo_sales_known =
     [JList [JObj [(''Product'', JStr ''Widget''), (''Quantity'', JInt 3)]],
      JList [JObj [(''Product'', JStr ''Widget''), (''Quantity'', JInt 1)]]]"



text \<open>A well-formed product: a dictionary that has a title and a price.\<close>

fun is_product :: "'f json \<Rightarrow> bool" where
  "is_product (JObj kvs) = (map_of kvs ''title'' \<noteq> None \<and> map_of kvs ''price'' \<noteq> None)"
| "is_product _ = False"

text \<open>
  The projection of a product to its title and its price, in this order (a field the
  product lacks would read \<^verbatim>\<open>None\<close>).
\<close>

definition field :: "'f json \<Rightarrow> string \<Rightarrow> 'f json" where
  "field item key = (case py_getitem item key of Inr v \<Rightarrow> v | Inl e \<Rightarrow> JNull)"

definition title_and_price :: "'f json \<Rightarrow> 'f json" where
  "title_and_price item = JObj [(''title'', field item ''title''), (''price'', field item ''price'')]"

text \<open>The title of a catalogue entry, if it has one.\<close>

definition entry_title :: "'f json \<Rightarrow> 'f json option" where
  "entry_title entry = (case py_getitem entry ''title'' of Inr title \<Rightarrow> Some title | Inl e \<Rightarrow> None)"

text \<open>
  File systems for concrete runs: a product list with an extra field and no cache; a
  cache and no product list; a product list with one title twice.
\<close>

definition products_world :: "rat world" where
  "products_world =
     \<lparr>files = [''productList.json'' \<mapsto>
         Doc (JList [JObj [(''title'', JStr ''Widget''), (''type'', JStr ''tool''), (''price'', JInt 2)]])],
      out = [], writes = []\<rparr>"

definition cached_world :: "rat world" where
  "cached_world =
     \<lparr>files = [''priceCatalogue.json'' \<mapsto>
         Doc (JList [JObj [(''title'', JStr ''Cached''), (''price'', JInt 9)]])],
      out = [], writes = []\<rparr>"

definition dup_world :: "rat world" where
  "dup_world =
     \<lparr>files = [''productList.json'' \<mapsto>
         Doc (JList [JObj [(''title'', JStr ''A''), (''price'', JInt 1)],
                     JObj [(''title'', JStr ''A''), (''price'', JInt 2)]])],
      out = [], writes = []\<rparr>"

text \<open>The prints that announce an abort.\<close>

fun is_diagnostic :: "'f event \<Rightarrow> bool" where
  "is_diagnostic Usage = True"
| "is_diagnostic CatalogueError = True"
| "is_diagnostic (SalesFileError sales_file) = True"
| "is_diagnostic _ = False"

text \<open>A file system with a product list, no cache and no sales file.\<close>

definition abort_world :: "rat world" where
  "abort_world =
     \<lparr>files = [''productList.json'' \<mapsto>
         Doc (JList [JObj [(''title'', JStr ''Widget''), (''price'', JInt 2)]])],
      out = [], writes = []\<rparr>"

text \<open>The prints of \<^verbatim>\<open>load_json_file\<close> about one file.\<close>

fun about_file :: "string \<Rightarrow> 'f event \<Rightarrow> bool" where
  "about_file path (Loading filename) = (filename = path)"
| "about_file path (Loaded filename n) = (filename = path)"
| "about_file path (LoadError filename) = (filename = path)"
| "about_file path _ = False"

text \<open>
  A file the program cannot work from: missing, not JSON, or an empty document.
\<close>

definition unusable :: "'f world \<Rightarrow> string \<Rightarrow> bool" where
  "unusable w path =
     (case files w path of
        Some (Doc data) \<Rightarrow> py_len data = Inr 0
      | _ \<Rightarrow> True)"

text \<open>A file that, if it is JSON, holds a value with a length (an array).\<close>

definition sized_if_json :: "'f world \<Rightarrow> string \<Rightarrow> bool" where
  "sized_if_json w path =
     (case files w path of
        Some (Doc data) \<Rightarrow> (case py_len data of Inr n \<Rightarrow> True | Inl e \<Rightarrow> False)
      | _ \<Rightarrow> True)"

text \<open>A file that, if it is JSON, holds a collection of well-formed products.\<close>

definition products_if_json :: "'f world \<Rightarrow> string \<Rightarrow> bool" where
  "products_if_json w path =
     (case files w path of
        Some (Doc data) \<Rightarrow>
          (case py_iter data of Inr items \<Rightarrow> list_all is_product items | Inl e \<Rightarrow> False)
      | _ \<Rightarrow> True)"

text \<open>
  The fatal conditions met before any sales file is read: fewer than two arguments after
  the script name; an unusable cache; with no cache, an unusable product list.
\<close>

definition fatal_at_start :: "'f world \<Rightarrow> string list \<Rightarrow> bool" where
  "fatal_at_start w argv =
     (length argv < 3 \<or>
      (if files w catalogue_path = None then unusable w (argv ! 1) else unusable w catalogue_path))"

text \<open>
  An unusable sales file. A sales file at the cache path does not count: when it is
  missing, a run that derives the catalogue creates it before the sales files are loaded.
\<close>

definition bad_sales_file :: "'f world \<Rightarrow> string list \<Rightarrow> bool" where
  "bad_sales_file w argv =
     (\<exists>sales_file\<in>set (drop 2 argv). sales_file \<noteq> catalogue_path \<and> unusable w sales_file)"

text \<open>
  Well-formed inputs: the cache and the sales files, where they are JSON, hold arrays, and
  with no cache the product list, where it is JSON, holds well-formed products.
\<close>

definition inputs_well_formed :: "'f world \<Rightarrow> string list \<Rightarrow> bool" where
  "inputs_well_formed w argv =
     ((if files w catalogue_path = None then products_if_json w (argv ! 1)
       else sized_if_json w catalogue_path) \<and>
      (\<forall>sales_file\<in>set (drop 2 argv). sized_if_json w sales_file))"

section \<open>Labels of the result\<close>

lemma digit_char_inj: "a < 10 \<Longrightarrow> b < 10 \<Longrightarrow> digit_char a = digit_char b \<Longrightarrow> a = b"
proof -
  assume a: "a < 10" and b: "b < 10" and e: "digit_char a = digit_char b"
  have d: "distinct ''0123456789''" by simp
  have "a < length ''0123456789''" and "b < length ''0123456789''" using a b by simp_all
  with d e show "a = b" unfolding digit_char_def by (simp only: nth_eq_iff_index_eq)
qed

lemma str_of_nat_nonempty: "str_of_nat n \<noteq> []"
  by (subst str_of_nat.simps) simp

lemma str_of_nat_inj: "str_of_nat n = str_of_nat m \<Longrightarrow> n = m"
proof (induction n arbitrary: m rule: str_of_nat.induct)
  case (1 n)
  show ?case
  proof (cases "n < 10")
    case True
    show ?thesis
    proof (cases "m < 10")
      case m: True
      from "1.prems" True m have "digit_char n = digit_char m"
        by (simp add: str_of_nat.simps [of n] str_of_nat.simps [of m])
      then show ?thesis using True m by (rule_tac digit_char_inj)
    next
      case m: False
      from "1.prems" True m have "[digit_char n] = str_of_nat (m div 10) @ [digit_char (m mod 10)]"
        by (simp add: str_of_nat.simps [of n] str_of_nat.simps [of m])
      then show ?thesis using str_of_nat_nonempty [of "m div 10"] by simp
    qed
  next
    case False
    show ?thesis
    proof (cases "m < 10")
      case m: True
      from "1.prems" False m have "str_of_nat (n div 10) @ [digit_char (n mod 10)] = [digit_char m]"
        by (simp add: str_of_nat.simps [of n] str_of_nat.simps [of m])
      then show ?thesis using str_of_nat_nonempty [of "n div 10"] by simp
    next
      case m: False
      from "1.prems" False m
      have "str_of_nat (n div 10) @ [digit_char (n mod 10)] = str_of_nat (m div 10) @ [digit_char (m mod 10)]"
        by (simp add: str_of_nat.simps [of n] str_of_nat.simps [of m])
      then have e1: "str_of_nat (n div 10) = str_of_nat (m div 10)"
        and e2: "digit_char (n mod 10) = digit_char (m mod 10)" by simp_all
      from "1.IH" [OF False e1] have d: "n div 10 = m div 10" .
      from e2 have r: "n mod 10 = m mod 10" by (intro digit_char_inj) simp_all
      from d r show ?thesis by (metis div_mult_mod_eq)
    qed
  qed
qed

lemma sales_file_label_inj: "sales_file_label i = sales_file_label j \<Longrightarrow> i = j"
  by (simp add: sales_file_label_def str_of_nat_inj)

lemma sales_file_label_not_total: "sales_file_label i \<noteq> total_label"
  by (simp add: sales_file_label_def total_label_def)

lemma dict_set_fresh: "k \<notin> fst ` set d \<Longrightarrow> dict_set (=) d k v = d @ [(k, v)]"
  by (induction d) auto


lemma process_files_shape:
  assumes "process_files A P fs idx result combined w = (w', Inr (res, c))"
    and "\<forall>j\<ge>idx. sales_file_label j \<notin> fst ` set result"
  shows "\<exists>totals. length totals = length fs \<and>
           res = result @ zip (map sales_file_label [idx..<idx + length fs]) totals \<and>
           c = foldl (fadd A) combined totals"
  using assms
proof (induction fs arbitrary: idx result combined w)
  case Nil
  then show ?case by simp
next
  case (Cons sales_data rest)
  from Cons.prems(1) obtain sales where it: "py_iter sales_data = Inr sales"
    by (cases "py_iter sales_data") auto
  obtain w1 r where ps: "process_sales A P sales (fzero A) w = (w1, r)"
    by (cases "process_sales A P sales (fzero A) w") auto
  from Cons.prems(1) it ps obtain t where r: "r = Inr t"
    by (cases r) auto
  let ?result = "dict_set (=) result (sales_file_label idx) t"
  from Cons.prems(1) it ps r
  have rec: "process_files A P rest (Suc idx) ?result (fadd A combined t) w1 = (w', Inr (res, c))"
    by simp
  from Cons.prems(2) have fresh: "sales_file_label idx \<notin> fst ` set result" by simp
  then have upd: "?result = result @ [(sales_file_label idx, t)]"
    by (rule dict_set_fresh)
  have "\<forall>j\<ge>Suc idx. sales_file_label j \<notin> fst ` set ?result"
  proof (intro allI impI)
    fix j assume j: "Suc idx \<le> j"
    then have "sales_file_label j \<noteq> sales_file_label idx"
      using sales_file_label_inj [of j idx] by auto
    moreover from j Cons.prems(2) have "sales_file_label j \<notin> fst ` set result" by simp
    ultimately show "sales_file_label j \<notin> fst ` set ?result" by (simp add: upd)
  qed
  from Cons.IH [OF rec this] obtain totals where
    len: "length totals = length rest" and
    res: "res = ?result @ zip (map sales_file_label [Suc idx..<Suc idx + length rest]) totals" and
    c: "c = foldl (fadd A) (fadd A combined t) totals"
    by blast
  have "idx < idx + length (sales_data # rest)" by simp
  then have "[idx..<idx + length (sales_data # rest)] = idx # [Suc idx..<idx + length (sales_data # rest)]"
    by (rule upt_conv_Cons)
  then have "[idx..<idx + length (sales_data # rest)] = idx # [Suc idx..<Suc idx + length rest]"
    by simp
  with len res c upd show ?case
    by (intro exI [of _ "t # totals"]) simp
qed

lemma compute_total_sales_shape:
  assumes "compute_total_sales A product_catalogue sales_data_list w = (w', Inr res)"
  shows "\<exists>totals. length totals = length sales_data_list \<and>
           res = zip (map sales_file_label [1..<Suc (length sales_data_list)]) totals @
                 [(total_label, foldl (fadd A) (fzero A) totals)]"
proof -
  from assms obtain products where it: "py_iter product_catalogue = Inr products"
    by (cases "py_iter product_catalogue") (auto simp: compute_total_sales_def)
  from assms it obtain P where bp: "build_prices A products [] = Inr P"
    by (cases "build_prices A products []") (auto simp: compute_total_sales_def)
  obtain w1 r where pf: "process_files A P sales_data_list 1 [] (fzero A) w = (w1, r)"
    by (cases "process_files A P sales_data_list 1 [] (fzero A) w") auto
  from assms it bp pf obtain per_file c where r: "r = Inr (per_file, c)"
    by (cases r) (auto simp: compute_total_sales_def)
  from assms it bp pf r have res: "res = dict_set (=) per_file total_label c" and "w' = w1"
    by (auto simp: compute_total_sales_def)
  from pf r have "process_files A P sales_data_list 1 [] (fzero A) w = (w1, Inr (per_file, c))"
    by simp
  from process_files_shape [OF this] obtain totals where
    len: "length totals = length sales_data_list" and
    pf_eq: "per_file = zip (map sales_file_label [1..<1 + length sales_data_list]) totals" and
    c: "c = foldl (fadd A) (fzero A) totals"
    by auto
  have "total_label \<notin> fst ` set per_file"
  proof
    assume "total_label \<in> fst ` set per_file"
    then obtain v where "(total_label, v) \<in> set per_file" by force
    then have "total_label \<in> set (map sales_file_label [1..<1 + length sales_data_list])"
      unfolding pf_eq by (rule set_zip_leftD)
    then obtain i where "total_label = sales_file_label i" by auto
    then show False using sales_file_label_not_total [of i] by metis
  qed
  then have "res = per_file @ [(total_label, c)]"
    unfolding res by (rule dict_set_fresh)
  with len pf_eq c show ?thesis by auto
qed

lemma sales_file_label_1: "sales_file_label 1 = ''Sales File 1''"
  by (simp add: sales_file_label_def str_of_nat.simps digit_char_def)

lemma sales_file_label_2: "sales_file_label 2 = ''Sales File 2''"
  by (simp add: sales_file_label_def str_of_nat.simps digit_char_def)

lemma sales_file_label_Suc_0: "sales_file_label (Suc 0) = ''Sales File 1''"
  using sales_file_label_1 by simp

lemma demo_run:
  "compute_total_sales exact_arith demo_catalogue demo_sales empty_world =
     (empty_world\<lparr>out := [Warning (JStr ''Gadget'')]\<rparr>, Inr demo_totals)"
  by (simp add: compute_total_sales_def demo_catalogue_def demo_sales_def demo_totals_def
      process_sales.simps(2) py_mul_def float_iadd_def exact_arith_def emit_def empty_world_def total_label_def
      sales_file_label_Suc_0 sales_file_label_2 numeral_2_eq_2 [symmetric])

lemma dict_find_append_fresh: "k \<notin> fst ` set d \<Longrightarrow> dict_find (=) (d @ [(k, v)]) k = Some v"
  by (induction d) auto

lemma label_prefix: "take 11 (sales_file_label i) = ''Sales File ''"
  by (simp add: sales_file_label_def)

lemma total_no_prefix: "take 11 total_label \<noteq> ''Sales File ''"
  by (simp add: total_label_def)

lemma per_file_entries_labels:
  "length totals = length idxs \<Longrightarrow>
   per_file_entries (zip (map sales_file_label idxs) totals @ [(total_label, c)]) =
     zip (map sales_file_label idxs) totals"
proof -
  have "\<forall>kv \<in> set (zip (map sales_file_label idxs) totals). take 11 (fst kv) = ''Sales File ''"
    by (auto dest!: set_zip_leftD simp: label_prefix)
  then have "filter (\<lambda>kv. take 11 (fst kv) = ''Sales File '') (zip (map sales_file_label idxs) totals)
      = zip (map sales_file_label idxs) totals"
    by (simp add: filter_id_conv)
  then show ?thesis by (simp add: per_file_entries_def total_no_prefix)
qed

section \<open>The result of compute\_total\_sales\<close>

text \<open>
  Claim C1. Whenever \<^verbatim>\<open>compute_total_sales\<close> returns, the value under
  \<^verbatim>\<open>Total Combined Sales\<close> is the float sum, from \<^verbatim>\<open>0.0\<close> and in file order, of the
  values of the \<^verbatim>\<open>Sales File <n>\<close> entries of the same result.
\<close>

theorem combined_total_is_sum_of_file_totals:
  assumes "compute_total_sales A product_catalogue sales_data_list w = (w', Inr res)"
  shows "dict_find (=) res total_label =
           Some (foldl (fadd A) (fzero A) (map snd (per_file_entries res)))"
proof -
  let ?labels = "map sales_file_label [1..<Suc (length sales_data_list)]"
  from compute_total_sales_shape [OF assms] obtain totals where
    len: "length totals = length sales_data_list" and
    res: "res = zip ?labels totals @ [(total_label, foldl (fadd A) (fzero A) totals)]"
    by blast
  have fresh: "total_label \<notin> fst ` set (zip ?labels totals)"
  proof
    assume "total_label \<in> fst ` set (zip ?labels totals)"
    then obtain v where "(total_label, v) \<in> set (zip ?labels totals)" by force
    then have "total_label \<in> set ?labels" by (rule set_zip_leftD)
    then obtain i where "total_label = sales_file_label i" by auto
    then show False using sales_file_label_not_total [of i] by metis
  qed
  have "length totals = length [1..<Suc (length sales_data_list)]"
    using len by (simp del: upt_Suc)
  then have pf: "per_file_entries res = zip ?labels totals"
    unfolding res by (rule per_file_entries_labels)
  have "map snd (zip ?labels totals) = totals" using len by (simp del: upt_Suc)
  with pf have "map snd (per_file_entries res) = totals" by simp
  moreover have "dict_find (=) res total_label = Some (foldl (fadd A) (fzero A) totals)"
    unfolding res using fresh by (rule dict_find_append_fresh)
  ultimately show ?thesis by simp
qed

theorem combined_total_is_sum_of_file_totals_witness:
  "compute_total_sales exact_arith demo_catalogue demo_sales empty_world =
     (empty_world\<lparr>out := [Warning (JStr ''Gadget'')]\<rparr>, Inr demo_totals) \<and>
   dict_find (=) demo_totals total_label =
     Some (foldl (fadd exact_arith) (fzero exact_arith) (map snd (per_file_entries demo_totals)))"
  using combined_total_is_sum_of_file_totals [OF demo_run] demo_run by simp



section \<open>The loops only print\<close>

lemma printed_Nil [simp]: "printed [] w = w"
  by (simp add: printed_def)

lemma printed_printed [simp]: "printed evs2 (printed evs1 w) = printed (evs1 @ evs2) w"
  by (simp add: printed_def)

lemma out_printed [simp]: "out (printed evs w) = out w @ evs"
  by (simp add: printed_def)

lemma emit_printed: "emit e w = printed [e] w"
  by (simp add: emit_def printed_def)

lemma process_sales_Cons:
  "process_sales A P (sale # rest) t w =
     (case sale_effect A P sale t of
        Inl e \<Rightarrow> (w, Inl e)
      | Inr (t', evs) \<Rightarrow> process_sales A P rest t' (printed evs w))"
  by (simp add: process_sales.simps(2) sale_effect_def emit_printed split: sum.splits option.splits)

lemma process_sales_pure:
  "\<exists>evs r. \<forall>w. process_sales A P xs t w = (printed evs w, r)"
proof (induction xs arbitrary: t)
  case Nil
  have "\<forall>w. process_sales A P [] t w = (printed [] w, Inr t)" by simp
  then show ?case by blast
next
  case (Cons sale rest)
  show ?case
  proof (cases "sale_effect A P sale t")
    case (Inl e)
    then have "\<forall>w. process_sales A P (sale # rest) t w = (printed [] w, Inl e)"
      by (simp add: process_sales_Cons)
    then show ?thesis by blast
  next
    case (Inr p)
    obtain t' evs1 where p: "p = (t', evs1)" by (cases p)
    from Cons.IH [of t'] obtain evs2 r where
      ih: "\<forall>w. process_sales A P rest t' w = (printed evs2 w, r)" by blast
    from Inr p ih have "\<forall>w. process_sales A P (sale # rest) t w = (printed (evs1 @ evs2) w, r)"
      by (simp add: process_sales_Cons)
    then show ?thesis by blast
  qed
qed

lemma process_sales_snd: "snd (process_sales A P xs t w) = snd (process_sales A P xs t w0)"
  using process_sales_pure [of A P xs t] by (metis snd_conv)

lemma process_files_pure:
  "\<exists>evs r. \<forall>w. process_files A P fs idx result c w = (printed evs w, r)"
proof (induction fs arbitrary: idx result c)
  case Nil
  have "\<forall>w. process_files A P [] idx result c w = (printed [] w, Inr (result, c))" by simp
  then show ?case by blast
next
  case (Cons sales_data rest)
  show ?case
  proof (cases "py_iter sales_data")
    case (Inl e)
    then have "\<forall>w. process_files A P (sales_data # rest) idx result c w = (printed [] w, Inl e)"
      by simp
    then show ?thesis by blast
  next
    case (Inr sales)
    from process_sales_pure [of A P sales "fzero A"] obtain evs1 r1 where
      ps: "\<forall>w. process_sales A P sales (fzero A) w = (printed evs1 w, r1)" by blast
    show ?thesis
    proof (cases r1)
      case (Inl e)
      with Inr ps
      have "\<forall>w. process_files A P (sales_data # rest) idx result c w = (printed evs1 w, Inl e)"
        by simp
      then show ?thesis by blast
    next
      case r1: (Inr t)
      from Cons.IH [of "Suc idx" "dict_set (=) result (sales_file_label idx) t" "fadd A c t"]
      obtain evs2 r where
        ih: "\<forall>w. process_files A P rest (Suc idx)
               (dict_set (=) result (sales_file_label idx) t) (fadd A c t) w = (printed evs2 w, r)"
        by blast
      from Inr ps r1 ih
      have "\<forall>w. process_files A P (sales_data # rest) idx result c w = (printed (evs1 @ evs2) w, r)"
        by simp
      then show ?thesis by blast
    qed
  qed
qed


lemma process_files_snd:
  "snd (process_files A P fs idx result c w) = snd (process_files A P fs idx result c w0)"
  using process_files_pure [of A P fs idx result c] by (metis snd_conv)

lemma process_sales_out:
  "process_sales A P xs t w = (w', r) \<Longrightarrow> \<exists>evs. w' = printed evs w"
  using process_sales_pure [of A P xs t] by (metis fst_conv)

lemma process_files_out:
  "process_files A P fs idx result c w = (w', r) \<Longrightarrow> \<exists>evs. w' = printed evs w"
  using process_files_pure [of A P fs idx result c] by (metis fst_conv)

lemma dict_find_None: "dict_find eq d k = None \<longleftrightarrow> (\<forall>kv\<in>set d. \<not> eq (fst kv) k)"
  by (induction d) auto

lemma dict_set_keys: "fst ` set (dict_set eq d k v) \<subseteq> insert k (fst ` set d)"
  by (induction d) auto

lemma build_prices_keys:
  "build_prices A ps d = Inr P \<Longrightarrow> key \<in> fst ` set P \<Longrightarrow>
   key \<in> fst ` set d \<or> (\<exists>p\<in>set ps. py_getitem p ''title'' = Inr key)"
proof (induction ps arbitrary: d)
  case Nil
  then show ?case by simp
next
  case (Cons p ps)
  from Cons.prems(1) obtain title where t: "py_getitem p ''title'' = Inr title"
    by (cases "py_getitem p ''title''") auto
  from Cons.prems(1) t obtain price where pr: "py_getitem p ''price'' = Inr price"
    by (cases "py_getitem p ''price''") auto
  from Cons.prems(1) t pr have rec: "build_prices A ps (dict_set (key_eq A) d title price) = Inr P"
    by (simp split: if_splits)
  from Cons.IH [OF rec Cons.prems(2)]
  consider "key \<in> fst ` set (dict_set (key_eq A) d title price)"
    | "\<exists>p\<in>set ps. py_getitem p ''title'' = Inr key" by blast
  then show ?case
  proof cases
    case 1
    with dict_set_keys [of "key_eq A" d title price] have "key = title \<or> key \<in> fst ` set d"
      by blast
    with t show ?thesis by auto
  next
    case 2
    then show ?thesis by auto
  qed
qed

lemma absent_from_prices:
  assumes "build_prices A products [] = Inr product_prices"
    and "\<forall>p\<in>set products. \<forall>title. py_getitem p ''title'' = Inr title \<longrightarrow> \<not> key_eq A title name"
  shows "dict_find (key_eq A) product_prices name = None"
proof -
  have "\<not> key_eq A (fst kv) name" if "kv \<in> set product_prices" for kv
  proof -
    from that have "fst kv \<in> fst ` set product_prices" by simp
    from build_prices_keys [OF assms(1) this]
    obtain p where "p \<in> set products" and "py_getitem p ''title'' = Inr (fst kv)" by auto
    with assms(2) show ?thesis by blast
  qed
  then show ?thesis by (simp add: dict_find_None)
qed

lemma sale_effect_unknown:
  assumes "py_get sale ''Product'' JNull = Inr product_name"
    and "hashable product_name"
    and "dict_find (key_eq A) P product_name = None"
  shows "sale_effect A P sale t = Inr (t, [Warning product_name])"
proof -
  from assms(1) obtain kvs where "sale = JObj kvs" by (cases sale) auto
  with assms show ?thesis by (simp add: sale_effect_def)
qed

lemma process_sales_skip:
  assumes "\<And>t. sale_effect A P sale t = Inr (t, [Warning product_name])"
  shows "snd (process_sales A P (before @ sale # after) t w) =
         snd (process_sales A P (before @ after) t w)"
proof (induction before arbitrary: t w)
  case Nil
  have "process_sales A P (sale # after) t w = process_sales A P after t (printed [Warning product_name] w)"
    by (simp add: process_sales_Cons assms)
  then show ?case using process_sales_snd [of A P after t "printed [Warning product_name] w" w]
    by simp
next
  case (Cons x before)
  show ?case
  proof (cases "sale_effect A P x t")
    case (Inl e)
    then show ?thesis by (simp add: process_sales_Cons)
  next
    case (Inr p)
    obtain t' evs where "p = (t', evs)" by (cases p)
    with Inr Cons.IH [of t' "printed evs w"] show ?thesis by (simp add: process_sales_Cons)
  qed
qed

lemma process_sales_warns:
  assumes "\<And>t. sale_effect A P sale t = Inr (t, [Warning product_name])"
    and "process_sales A P (before @ sale # after) t w = (w', Inr t')"
  shows "Warning product_name \<in> set (out w')"
  using assms(2)
proof (induction before arbitrary: t w)
  case Nil
  then have "process_sales A P after t (printed [Warning product_name] w) = (w', Inr t')"
    by (simp add: process_sales_Cons assms(1))
  from process_sales_out [OF this] show ?case by auto
next
  case (Cons x before)
  show ?case
  proof (cases "sale_effect A P x t")
    case (Inl e)
    with Cons.prems show ?thesis by (simp add: process_sales_Cons)
  next
    case (Inr p)
    obtain t1 evs where "p = (t1, evs)" by (cases p)
    with Inr Cons.prems have "process_sales A P (before @ sale # after) t1 (printed evs w) = (w', Inr t')"
      by (simp add: process_sales_Cons)
    then show ?thesis by (rule Cons.IH)
  qed
qed

lemma process_files_skip:
  assumes "\<And>t. sale_effect A P sale t = Inr (t, [Warning product_name])"
  shows "snd (process_files A P (fs1 @ JList (before @ sale # after) # fs2) idx result c w) =
         snd (process_files A P (fs1 @ JList (before @ after) # fs2) idx result c w)"
proof (induction fs1 arbitrary: idx result c w)
  case Nil
  let ?with = "process_sales A P (before @ sale # after) (fzero A) w"
  let ?without = "process_sales A P (before @ after) (fzero A) w"
  have s: "snd ?with = snd ?without" using assms by (rule process_sales_skip)
  show ?case
  proof (cases "snd ?without")
    case (Inl e)
    with s show ?thesis by (cases ?with; cases ?without) simp
  next
    case (Inr t)
    obtain w1 where w1: "?with = (w1, Inr t)" using s Inr by (cases ?with) simp
    obtain w2 where w2: "?without = (w2, Inr t)" using Inr by (cases ?without) simp
    let ?result = "dict_set (=) result (sales_file_label idx) t"
    have "snd (process_files A P fs2 (Suc idx) ?result (fadd A c t) w1) =
          snd (process_files A P fs2 (Suc idx) ?result (fadd A c t) w2)"
      by (rule process_files_snd)
    with w1 w2 show ?thesis by simp
  qed
next
  case (Cons f fs1)
  show ?case
  proof (cases "py_iter f")
    case (Inl e)
    then show ?thesis by simp
  next
    case (Inr sales)
    show ?thesis
    proof (cases "process_sales A P sales (fzero A) w")
      case (Pair w1 r)
      show ?thesis
      proof (cases r)
        case (Inl e)
        with Inr Pair show ?thesis by simp
      next
        case r: (Inr t)
        with Inr Pair Cons.IH show ?thesis by simp
      qed
    qed
  qed
qed

lemma process_files_warns:
  assumes "\<And>t. sale_effect A P sale t = Inr (t, [Warning product_name])"
    and "process_files A P (fs1 @ JList (before @ sale # after) # fs2) idx result c w = (w', Inr r)"
  shows "Warning product_name \<in> set (out w')"
  using assms(2)
proof (induction fs1 arbitrary: idx result c w)
  case Nil
  obtain w1 r1 where ps: "process_sales A P (before @ sale # after) (fzero A) w = (w1, r1)"
    by (cases "process_sales A P (before @ sale # after) (fzero A) w") auto
  with Nil obtain t where r1: "r1 = Inr t" by (cases r1) auto
  from ps r1 have "Warning product_name \<in> set (out w1)"
    using process_sales_warns [OF assms(1)] by blast
  moreover from Nil ps r1 have "process_files A P fs2 (Suc idx)
      (dict_set (=) result (sales_file_label idx) t) (fadd A c t) w1 = (w', Inr r)" by simp
  from process_files_out [OF this] obtain evs where "w' = printed evs w1" by blast
  ultimately show ?case by simp
next
  case (Cons f fs1)
  from Cons.prems obtain sales where it: "py_iter f = Inr sales"
    by (cases "py_iter f") auto
  obtain w1 r1 where ps: "process_sales A P sales (fzero A) w = (w1, r1)"
    by (cases "process_sales A P sales (fzero A) w") auto
  with Cons.prems it obtain t where r1: "r1 = Inr t" by (cases r1) auto
  from Cons.prems it ps r1 have "process_files A P (fs1 @ JList (before @ sale # after) # fs2) (Suc idx)
      (dict_set (=) result (sales_file_label idx) t) (fadd A c t) w1 = (w', Inr r)" by simp
  then show ?case by (rule Cons.IH)
qed

section \<open>Unknown products\<close>

text \<open>
  Claim C2. Take a sale record that is a dictionary, whose \<^verbatim>\<open>sale.get("Product")\<close>
  (\<^verbatim>\<open>None\<close> when the key is missing) is hashable and matches the title of no catalogue
  entry. Then the outcome of \<^verbatim>\<open>compute_total_sales\<close>, totals or error, is the one of the
  same input without the record: the record raises nothing and adds nothing to its file's
  total. Whenever the call returns, the warning naming the product was printed, and the
  loop goes on with the records after it from the same running total.
\<close>

theorem unknown_product_contributes_nothing:
  assumes "py_iter product_catalogue = Inr products"
    and "py_get sale ''Product'' JNull = Inr product_name"
    and "hashable product_name"
    and "\<forall>p\<in>set products. \<forall>title. py_getitem p ''title'' = Inr title \<longrightarrow> \<not> key_eq A title product_name"
  shows "snd (compute_total_sales A product_catalogue (fs1 @ JList (before @ sale # after) # fs2) w) =
         snd (compute_total_sales A product_catalogue (fs1 @ JList (before @ after) # fs2) w) \<and>
         (\<forall>w' res. compute_total_sales A product_catalogue (fs1 @ JList (before @ sale # after) # fs2) w =
              (w', Inr res) \<longrightarrow> Warning product_name \<in> set (out w')) \<and>
         (\<forall>product_prices total_sales w0. build_prices A products [] = Inr product_prices \<longrightarrow>
            process_sales A product_prices (sale # after) total_sales w0 =
            process_sales A product_prices after total_sales (emit (Warning product_name) w0))"
proof (cases "build_prices A products []")
  case (Inl e)
  with assms(1) show ?thesis by (simp add: compute_total_sales_def)
next
  case (Inr P)
  let ?with = "fs1 @ JList (before @ sale # after) # fs2"
  let ?without = "fs1 @ JList (before @ after) # fs2"
  from Inr assms(4) have "dict_find (key_eq A) P product_name = None"
    by (rule absent_from_prices)
  with assms(2,3) have eff: "\<And>t. sale_effect A P sale t = Inr (t, [Warning product_name])"
    by (rule sale_effect_unknown)
  have s: "snd (process_files A P ?with 1 [] (fzero A) w) =
           snd (process_files A P ?without 1 [] (fzero A) w)"
    using eff by (rule process_files_skip)
  have one: "snd (compute_total_sales A product_catalogue ?with w) =
             snd (compute_total_sales A product_catalogue ?without w)"
    using s assms(1) Inr
    by (cases "process_files A P ?with 1 [] (fzero A) w";
        cases "process_files A P ?without 1 [] (fzero A) w")
       (auto simp: compute_total_sales_def split: sum.splits)
  have two: "Warning product_name \<in> set (out w')"
    if "compute_total_sales A product_catalogue ?with w = (w', Inr res)" for w' res
  proof -
    obtain w1 r where pf: "process_files A P ?with 1 [] (fzero A) w = (w1, r)"
      by (cases "process_files A P ?with 1 [] (fzero A) w") auto
    with that assms(1) Inr obtain pc where "r = Inr pc" and "w' = w1"
      by (cases r) (auto simp: compute_total_sales_def)
    with pf have "process_files A P ?with 1 [] (fzero A) w = (w', Inr pc)" by simp
    with eff show ?thesis by (rule process_files_warns)
  qed
  have three: "process_sales A P (sale # after) total_sales w0 =
               process_sales A P after total_sales (emit (Warning product_name) w0)"
    for total_sales w0
    by (simp add: process_sales_Cons eff emit_printed)
  from one two three Inr show ?thesis by simp
qed

lemma demo_run_known:
  "compute_total_sales exact_arith demo_catalogue demo_sales_known empty_world =
     (empty_world, Inr demo_totals)"
  by (simp add: compute_total_sales_def demo_catalogue_def demo_sales_known_def demo_totals_def
      process_sales.simps(2) py_mul_def float_iadd_def exact_arith_def emit_def empty_world_def
      total_label_def sales_file_label_Suc_0 sales_file_label_2 numeral_2_eq_2 [symmetric])

theorem unknown_product_contributes_nothing_witness:
  "snd (compute_total_sales exact_arith demo_catalogue demo_sales empty_world) = Inr demo_totals \<and>
   snd (compute_total_sales exact_arith demo_catalogue demo_sales_known empty_world) = Inr demo_totals \<and>
   Warning (JStr ''Gadget'') \<in> set (out (fst (compute_total_sales exact_arith demo_catalogue demo_sales empty_world)))"
proof -
  let ?sale = "JObj [(''Product'', JStr ''Gadget''), (''Quantity'', JInt 5)] :: rat json"
  let ?known = "JObj [(''Product'', JStr ''Widget''), (''Quantity'', JInt 1)] :: rat json"
  let ?first = "JList [JObj [(''Product'', JStr ''Widget''), (''Quantity'', JInt 3)]] :: rat json"
  let ?products = "[JObj [(''title'', JStr ''Widget''), (''price'', JInt 2)]] :: rat json list"
  have a: "py_iter demo_catalogue = Inr ?products" by (simp add: demo_catalogue_def)
  have b: "py_get ?sale ''Product'' JNull = Inr (JStr ''Gadget'')" by simp
  have c: "hashable (JStr ''Gadget'' :: rat json)" by simp
  have d: "\<forall>p\<in>set ?products. \<forall>title. py_getitem p ''title'' = Inr title \<longrightarrow>
             \<not> key_eq exact_arith title (JStr ''Gadget'')" by simp
  have e: "demo_sales = [?first] @ JList ([] @ ?sale # [?known]) # []"
    by (simp add: demo_sales_def)
  have f: "demo_sales_known = [?first] @ JList ([] @ [?known]) # []"
    by (simp add: demo_sales_known_def)
  from unknown_product_contributes_nothing [OF a b c d, of "[?first]" "[]" "[?known]" "[]" empty_world]
  have "snd (compute_total_sales exact_arith demo_catalogue demo_sales empty_world) =
        snd (compute_total_sales exact_arith demo_catalogue demo_sales_known empty_world)"
    and "\<forall>w' res. compute_total_sales exact_arith demo_catalogue demo_sales empty_world = (w', Inr res)
           \<longrightarrow> Warning (JStr ''Gadget'') \<in> set (out w')"
    unfolding e f by blast+
  with demo_run_known demo_run show ?thesis by simp
qed

lemma build_prices_total:
  "list_all catalogue_entry_ok ps \<Longrightarrow> \<exists>P. build_prices A ps d = Inr P"
proof (induction ps arbitrary: d)
  case Nil
  then show ?case by simp
next
  case (Cons p ps)
  from Cons.prems have ok: "catalogue_entry_ok p" and rest: "list_all catalogue_entry_ok ps"
    by simp_all
  from ok obtain kvs where p: "p = JObj kvs" by (cases p) auto
  from ok p obtain title where t: "map_of kvs ''title'' = Some title" and h: "hashable title"
    and "map_of kvs ''price'' \<noteq> None"
    by (auto split: option.splits)
  then obtain price where pr: "map_of kvs ''price'' = Some price" by auto
  from Cons.IH [OF rest, of "dict_set (key_eq A) d title price"] p t h pr
  show ?case by simp
qed

text \<open>
  Claim C10. Whenever \<^verbatim>\<open>compute_total_sales\<close> returns for \<open>n\<close> sales collections the
  result has \<open>n + 1\<close> entries; and for a catalogue list whose entries have a hashable
  title and a price, the call on no collection at all returns exactly
  \<^verbatim>\<open>{"Total Combined Sales": 0.0}\<close> and prints nothing.
\<close>

theorem result_has_one_entry_per_file_and_total:
  "(compute_total_sales A product_catalogue sales_data_list w = (w', Inr res) \<longrightarrow>
      length res = length sales_data_list + 1) \<and>
   (list_all catalogue_entry_ok products \<longrightarrow>
      compute_total_sales A (JList products) [] w = (w, Inr [(total_label, fzero A)]))"
proof (intro conjI impI)
  assume "compute_total_sales A product_catalogue sales_data_list w = (w', Inr res)"
  from compute_total_sales_shape [OF this] obtain totals where
    "length totals = length sales_data_list" and
    "res = zip (map sales_file_label [1..<Suc (length sales_data_list)]) totals @
           [(total_label, foldl (fadd A) (fzero A) totals)]"
    by blast
  then show "length res = length sales_data_list + 1" by (simp del: upt_Suc)
next
  assume "list_all catalogue_entry_ok products"
  from build_prices_total [OF this] obtain P where "build_prices A products [] = Inr P"
    by blast
  then show "compute_total_sales A (JList products) [] w = (w, Inr [(total_label, fzero A)])"
    by (simp add: compute_total_sales_def)
qed

theorem result_has_one_entry_per_file_and_total_witness:
  "compute_total_sales exact_arith demo_catalogue demo_sales empty_world =
     (empty_world\<lparr>out := [Warning (JStr ''Gadget'')]\<rparr>, Inr demo_totals) \<and>
   length demo_totals = length demo_sales + 1 \<and>
   list_all catalogue_entry_ok [JObj [(''title'', JStr ''Widget''), (''price'', JInt 2)] :: rat json] \<and>
   compute_total_sales exact_arith demo_catalogue [] empty_world =
     (empty_world, Inr [(''Total Combined Sales'', 0)])"
proof -
  let ?products = "[JObj [(''title'', JStr ''Widget''), (''price'', JInt 2)]] :: rat json list"
  have ok: "list_all catalogue_entry_ok ?products" by simp
  from result_has_one_entry_per_file_and_total
    [of exact_arith demo_catalogue demo_sales empty_world
        "empty_world\<lparr>out := [Warning (JStr ''Gadget'')]\<rparr>" demo_totals ?products]
    demo_run ok
  show ?thesis by (simp add: demo_catalogue_def total_label_def exact_arith_def)
qed

section \<open>The price lookup\<close>







section \<open>Loading and deriving the catalogue\<close>

lemma files_printed [simp]: "files (printed evs w) = files w"
  by (simp add: printed_def)

lemma writes_printed [simp]: "writes (printed evs w) = writes w"
  by (simp add: printed_def)

lemma load_json_file_doc:
  "files w filename = Some (Doc data) \<Longrightarrow> py_len data = Inr n \<Longrightarrow>
   load_json_file filename w = (printed [Loading filename, Loaded filename n] w, Inr data)"
  by (simp add: load_json_file_def emit_printed Let_def)

lemma load_json_file_no_len:
  "files w filename = Some (Doc data) \<Longrightarrow> py_len data = Inl e \<Longrightarrow>
   load_json_file filename w = (printed [Loading filename] w, Inl e)"
  by (simp add: load_json_file_def emit_printed Let_def)

lemma load_json_file_failed:
  "(\<forall>data. files w filename \<noteq> Some (Doc data)) \<Longrightarrow>
   load_json_file filename w = (printed [Loading filename, LoadError filename] w, Inr (JList []))"
  by (cases "files w filename")
     (auto simp: load_json_file_def emit_printed Let_def split: content.splits)

lemma load_json_file_pure:
  "\<exists>evs. fst (load_json_file filename w) = printed evs w"
proof (cases "\<exists>data. files w filename = Some (Doc data)")
  case True
  then obtain data where d: "files w filename = Some (Doc data)" by blast
  show ?thesis
  proof (cases "py_len data")
    case (Inl e)
    with d show ?thesis by (simp add: load_json_file_no_len) blast
  next
    case (Inr n)
    with d show ?thesis by (simp add: load_json_file_doc) blast
  qed
next
  case False
  then show ?thesis by (simp add: load_json_file_failed) blast
qed

lemma py_len_iter: "py_len v = Inr n \<Longrightarrow> \<exists>items. py_iter v = Inr items \<and> length items = n"
  by (cases v) auto

lemma py_iter_len: "py_iter v = Inr items \<Longrightarrow> py_len v = Inr (length items)"
  by (cases v) auto

lemma py_iter_truthy: "py_iter v = Inr items \<Longrightarrow> py_truthy A v \<longleftrightarrow> items \<noteq> []"
  by (cases v) auto

lemma catalogue_entries_length:
  "catalogue_entries items = Inr entries \<Longrightarrow> length entries = length items"
  by (induction items arbitrary: entries) (auto split: sum.splits)

lemma catalogue_entries_products:
  "list_all is_product items \<Longrightarrow> catalogue_entries items = Inr (map title_and_price items)"
proof (induction items)
  case Nil
  show ?case by simp
next
  case (Cons item items)
  from Cons.prems have "is_product item" and "list_all is_product items" by simp_all
  then obtain kvs title price where "item = JObj kvs"
    and "map_of kvs ''title'' = Some title" and "map_of kvs ''price'' = Some price"
    by (cases item) auto
  with Cons.IH [OF \<open>list_all is_product items\<close>] show ?case
    by (simp add: title_and_price_def field_def)
qed

lemma catalogue_entries_titles:
  "catalogue_entries items = Inr entries \<Longrightarrow> map entry_title entries = map entry_title items"
proof (induction items arbitrary: entries)
  case Nil
  then show ?case by simp
next
  case (Cons item items)
  from Cons.prems obtain title where t: "py_getitem item ''title'' = Inr title"
    by (cases "py_getitem item ''title''") auto
  from Cons.prems t obtain price where p: "py_getitem item ''price'' = Inr price"
    by (cases "py_getitem item ''price''") auto
  from Cons.prems t p obtain rest where r: "catalogue_entries items = Inr rest"
    by (cases "catalogue_entries items") auto
  from Cons.prems t p r have "entries = JObj [(''title'', title), (''price'', price)] # rest"
    by simp
  with Cons.IH [OF r] t show ?case by (simp add: entry_title_def)
qed

lemma generate_warm:
  "files w catalogue_file \<noteq> None \<Longrightarrow>
   generate_price_catalogue A product_list_file catalogue_file w = load_json_file catalogue_file w"
  by (simp add: generate_price_catalogue_def)

lemma generate_cold_written:
  assumes "files w catalogue_file = None"
    and "files w product_list_file = Some (Doc product_list)"
    and "py_iter product_list = Inr items"
    and "items \<noteq> []"
    and "catalogue_entries items = Inr entries"
  shows "generate_price_catalogue A product_list_file catalogue_file w =
     (emit (Generated catalogue_file (length items))
        (write_file catalogue_file (Doc (JList entries))
           (printed [Loading product_list_file, Loaded product_list_file (length items)] w)),
      Inr (JList entries))"
proof -
  from assms(3) have len: "py_len product_list = Inr (length items)" by (rule py_iter_len)
  from assms(3,4) have tr: "py_truthy A product_list" by (simp add: py_iter_truthy)
  from assms(5) have "length entries = length items" by (rule catalogue_entries_length)
  with assms len tr show ?thesis
    by (simp add: generate_price_catalogue_def load_json_file_doc)
qed

lemma generate_cold_not_written:
  assumes "files w catalogue_file = None"
    and "\<not> (\<exists>product_list items entries. files w product_list_file = Some (Doc product_list) \<and>
            py_iter product_list = Inr items \<and> items \<noteq> [] \<and> catalogue_entries items = Inr entries)"
  shows "\<exists>evs. fst (generate_price_catalogue A product_list_file catalogue_file w) = printed evs w"
proof (cases "\<exists>data. files w product_list_file = Some (Doc data)")
  case False
  with assms(1) show ?thesis
    by (simp add: generate_price_catalogue_def load_json_file_failed emit_printed) blast
next
  case True
  then obtain data where d: "files w product_list_file = Some (Doc data)" by blast
  show ?thesis
  proof (cases "py_len data")
    case (Inl e)
    with assms(1) d show ?thesis
      by (simp add: generate_price_catalogue_def load_json_file_no_len) blast
  next
    case (Inr n)
    then obtain items where it: "py_iter data = Inr items" using py_len_iter by blast
    show ?thesis
    proof (cases "items = []")
      case True
      with it have "\<not> py_truthy A data" by (simp add: py_iter_truthy)
      with assms(1) d Inr show ?thesis
        by (simp add: generate_price_catalogue_def load_json_file_doc emit_printed) blast
    next
      case False
      with it have tr: "py_truthy A data" by (simp add: py_iter_truthy)
      from assms(2) d it False obtain e where "catalogue_entries items = Inl e"
        by (cases "catalogue_entries items") auto
      with assms(1) d Inr it tr show ?thesis
        by (simp add: generate_price_catalogue_def load_json_file_doc) blast
    qed
  qed
qed


text \<open>
  Claim C3. With no file at the cache path and a product list that is a non-empty list of
  dictionaries each having a title and a price, \<^verbatim>\<open>generate_price_catalogue\<close> returns one
  entry per product, in input order, made of that product's title and price and nothing
  else (and writes this list to the cache path).
\<close>

theorem derived_catalogue_projects_products:
  assumes "files w catalogue_file = None"
    and "files w product_list_file = Some (Doc (JList items))"
    and "items \<noteq> []"
    and "list_all is_product items"
  shows "generate_price_catalogue A product_list_file catalogue_file w =
     (emit (Generated catalogue_file (length items))
        (write_file catalogue_file (Doc (JList (map title_and_price items)))
           (printed [Loading product_list_file, Loaded product_list_file (length items)] w)),
      Inr (JList (map title_and_price items))) \<and>
     (\<forall>item\<in>set items.
        py_getitem (title_and_price item) ''title'' = py_getitem item ''title'' \<and>
        py_getitem (title_and_price item) ''price'' = py_getitem item ''price'')"
proof
  have "py_iter (JList items) = Inr items" by simp
  moreover from assms(4) have "catalogue_entries items = Inr (map title_and_price items)"
    by (rule catalogue_entries_products)
  ultimately show "generate_price_catalogue A product_list_file catalogue_file w =
     (emit (Generated catalogue_file (length items))
        (write_file catalogue_file (Doc (JList (map title_and_price items)))
           (printed [Loading product_list_file, Loaded product_list_file (length items)] w)),
      Inr (JList (map title_and_price items)))"
    using assms(1,2,3) by (intro generate_cold_written)
next
  show "\<forall>item\<in>set items.
        py_getitem (title_and_price item) ''title'' = py_getitem item ''title'' \<and>
        py_getitem (title_and_price item) ''price'' = py_getitem item ''price''"
  proof
    fix item assume "item \<in> set items"
    with assms(4) have "is_product item" by (simp add: list_all_iff)
    then obtain kvs title price where "item = JObj kvs"
      and "map_of kvs ''title'' = Some title" and "map_of kvs ''price'' = Some price"
      by (cases item) auto
    then show "py_getitem (title_and_price item) ''title'' = py_getitem item ''title'' \<and>
        py_getitem (title_and_price item) ''price'' = py_getitem item ''price''"
      by (simp add: title_and_price_def field_def)
  qed
qed

theorem derived_catalogue_projects_products_witness:
  "snd (generate_price_catalogue exact_arith ''productList.json'' ''priceCatalogue.json'' products_world) =
     Inr (JList [JObj [(''title'', JStr ''Widget''), (''price'', JInt 2)]]) \<and>
   files (fst (generate_price_catalogue exact_arith ''productList.json'' ''priceCatalogue.json''
     products_world)) ''priceCatalogue.json'' =
     Some (Doc (JList [JObj [(''title'', JStr ''Widget''), (''price'', JInt 2)]]))"
proof -
  let ?items = "[JObj [(''title'', JStr ''Widget''), (''type'', JStr ''tool''), (''price'', JInt 2)]] :: rat json list"
  have a: "files products_world ''priceCatalogue.json'' = None" by (simp add: products_world_def)
  have b: "files products_world ''productList.json'' = Some (Doc (JList ?items))"
    by (simp add: products_world_def)
  have c: "?items \<noteq> []" by simp
  have d: "list_all is_product ?items" by simp
  from derived_catalogue_projects_products [OF a b c d, of exact_arith]
  show ?thesis by (simp add: title_and_price_def field_def emit_def write_file_def)
qed

lemma load_json_file_prints:
  "\<exists>evs. fst (load_json_file filename w) = printed evs w \<and> list_all (about_file filename) evs"
proof (cases "\<exists>data. files w filename = Some (Doc data)")
  case True
  then obtain data where d: "files w filename = Some (Doc data)" by blast
  show ?thesis
  proof (cases "py_len data")
    case (Inl e)
    with d show ?thesis
      by (intro exI [of _ "[Loading filename]"]) (simp add: load_json_file_no_len)
  next
    case (Inr n)
    with d show ?thesis
      by (intro exI [of _ "[Loading filename, Loaded filename n]"]) (simp add: load_json_file_doc)
  qed
next
  case False
  then show ?thesis
    by (intro exI [of _ "[Loading filename, LoadError filename]"]) (simp add: load_json_file_failed)
qed

lemma load_json_file_same_file:
  assumes "files w' filename = files w filename"
  shows "snd (load_json_file filename w') = snd (load_json_file filename w)"
proof (cases "\<exists>data. files w filename = Some (Doc data)")
  case True
  then obtain data where d: "files w filename = Some (Doc data)" by blast
  with assms have d': "files w' filename = Some (Doc data)" by simp
  show ?thesis
  proof (cases "py_len data")
    case (Inl e)
    with d d' show ?thesis by (simp add: load_json_file_no_len)
  next
    case (Inr n)
    with d d' show ?thesis by (simp add: load_json_file_doc)
  qed
next
  case False
  with assms have "\<forall>data. files w' filename \<noteq> Some (Doc data)" by simp
  with False show ?thesis by (simp add: load_json_file_failed)
qed

text \<open>
  Claim C4. Whenever a file is at the cache path, \<^verbatim>\<open>generate_price_catalogue\<close> does what
  loading that file does and nothing else: it prints only lines about the cache file, so
  the product list is never opened, it changes no file, and its result is the same for
  every product-list path and every content of the other files. When the file parses to a
  document that has a length (a list, whatever its elements are), that document is
  returned as it is.
\<close>

theorem cached_catalogue_returned_unchanged:
  assumes "files w catalogue_file = Some c"
  shows "(\<forall>cached n. c = Doc cached \<and> py_len cached = Inr n \<longrightarrow>
            generate_price_catalogue A product_list_file catalogue_file w =
              (printed [Loading catalogue_file, Loaded catalogue_file n] w, Inr cached)) \<and>
         (\<exists>evs. fst (generate_price_catalogue A product_list_file catalogue_file w) = printed evs w \<and>
            list_all (about_file catalogue_file) evs) \<and>
         (\<forall>A' other_list w'. files w' catalogue_file = Some c \<longrightarrow>
            snd (generate_price_catalogue A' other_list catalogue_file w') =
            snd (generate_price_catalogue A product_list_file catalogue_file w))"
proof (intro conjI allI impI)
  fix cached n
  assume "c = Doc cached \<and> py_len cached = Inr n"
  with assms show "generate_price_catalogue A product_list_file catalogue_file w =
      (printed [Loading catalogue_file, Loaded catalogue_file n] w, Inr cached)"
    by (simp add: generate_warm load_json_file_doc)
next
  from assms have "generate_price_catalogue A product_list_file catalogue_file w =
      load_json_file catalogue_file w" by (simp add: generate_warm)
  with load_json_file_prints [of catalogue_file w]
  show "\<exists>evs. fst (generate_price_catalogue A product_list_file catalogue_file w) = printed evs w \<and>
      list_all (about_file catalogue_file) evs" by simp
next
  fix A' :: "'a arith" and other_list and w' :: "'a world"
  assume w': "files w' catalogue_file = Some c"
  with assms have "files w' catalogue_file = files w catalogue_file" by simp
  then have "snd (load_json_file catalogue_file w') = snd (load_json_file catalogue_file w)"
    by (rule load_json_file_same_file)
  with assms w' show "snd (generate_price_catalogue A' other_list catalogue_file w') =
      snd (generate_price_catalogue A product_list_file catalogue_file w)"
    by (simp add: generate_warm)
qed

theorem cached_catalogue_returned_unchanged_witness:
  "generate_price_catalogue exact_arith ''productList.json'' ''priceCatalogue.json'' cached_world =
     (cached_world\<lparr>out := [Loading ''priceCatalogue.json'', Loaded ''priceCatalogue.json'' 1]\<rparr>,
      Inr (JList [JObj [(''title'', JStr ''Cached''), (''price'', JInt 9)]])) \<and>
   snd (generate_price_catalogue exact_arith ''other.json'' ''priceCatalogue.json'' cached_world) =
     Inr (JList [JObj [(''title'', JStr ''Cached''), (''price'', JInt 9)]])"
proof -
  let ?cached = "JList [JObj [(''title'', JStr ''Cached''), (''price'', JInt 9)]] :: rat json"
  have a: "files cached_world ''priceCatalogue.json'' = Some (Doc ?cached)"
    by (simp add: cached_world_def)
  have b: "py_len ?cached = Inr 1" by simp
  from cached_catalogue_returned_unchanged [OF a, of exact_arith "''productList.json''"]
  have one: "\<And>cached n. Doc ?cached = Doc cached \<and> py_len cached = Inr n \<Longrightarrow>
       generate_price_catalogue exact_arith ''productList.json'' ''priceCatalogue.json'' cached_world =
         (printed [Loading ''priceCatalogue.json'', Loaded ''priceCatalogue.json'' n] cached_world,
          Inr cached)"
    and two: "\<And>A' other_list w'. files w' ''priceCatalogue.json'' = Some (Doc ?cached) \<Longrightarrow>
       snd (generate_price_catalogue A' other_list ''priceCatalogue.json'' w') =
       snd (generate_price_catalogue exact_arith ''productList.json'' ''priceCatalogue.json''
         cached_world)"
    by blast+
  from one [of ?cached 1] b
  have run: "generate_price_catalogue exact_arith ''productList.json'' ''priceCatalogue.json''
      cached_world =
      (printed [Loading ''priceCatalogue.json'', Loaded ''priceCatalogue.json'' 1] cached_world,
       Inr ?cached)" by simp
  from two [OF a, of exact_arith "''other.json''"] run
  have "snd (generate_price_catalogue exact_arith ''other.json'' ''priceCatalogue.json''
      cached_world) = Inr ?cached" by simp
  with run show ?thesis by (simp add: printed_def cached_world_def)
qed

text \<open>
  Claim C6, as stated, fails: a product list that names one title twice gives a catalogue
  with two entries of that title.
\<close>

theorem duplicate_titles_counterexample:
  "snd (generate_price_catalogue exact_arith ''productList.json'' ''priceCatalogue.json'' dup_world) =
     Inr (JList [JObj [(''title'', JStr ''A''), (''price'', JInt 1)],
                 JObj [(''title'', JStr ''A''), (''price'', JInt 2)]]) \<and>
   \<not> distinct (map entry_title
       [JObj [(''title'', JStr ''A''), (''price'', JInt 1)],
        JObj [(''title'', JStr ''A''), (''price'', JInt 2 :: rat json)]])"
  by (simp add: generate_price_catalogue_def load_json_file_def dup_world_def emit_def
      write_file_def entry_title_def)

text \<open>
  Claim C6, amended. The catalogue \<^verbatim>\<open>generate_price_catalogue\<close> derives from a product list
  has the titles of the product list, in order: its titles are pairwise different exactly
  when those of the product list are.
\<close>

theorem catalogue_keeps_the_titles:
  assumes "files w catalogue_file = None"
    and "files w product_list_file = Some (Doc product_list)"
    and "py_iter product_list = Inr items"
    and "generate_price_catalogue A product_list_file catalogue_file w = (w', Inr catalogue)"
  shows "\<exists>entries. catalogue = JList entries \<and>
           map entry_title entries = map entry_title items \<and>
           (distinct (map entry_title entries) \<longleftrightarrow> distinct (map entry_title items))"
proof (cases "items = []")
  case True
  with assms(3) have "\<not> py_truthy A product_list" by (simp add: py_iter_truthy)
  moreover from assms(3) have "py_len product_list = Inr (length items)" by (rule py_iter_len)
  ultimately have "catalogue = JList []"
    using assms(1,2,4) by (simp add: generate_price_catalogue_def load_json_file_doc)
  with True show ?thesis by simp
next
  case False
  show ?thesis
  proof (cases "catalogue_entries items")
    case (Inl e)
    from assms(3) have len: "py_len product_list = Inr (length items)" by (rule py_iter_len)
    from assms(3) False have "py_truthy A product_list" by (simp add: py_iter_truthy)
    with assms len Inl show ?thesis
      by (simp add: generate_price_catalogue_def load_json_file_doc)
  next
    case (Inr entries)
    from generate_cold_written [OF assms(1,2,3) False Inr, of A] assms(4)
    have "catalogue = JList entries" by simp
    moreover from Inr have "map entry_title entries = map entry_title items"
      by (rule catalogue_entries_titles)
    ultimately show ?thesis by simp
  qed
qed

theorem catalogue_keeps_the_titles_witness:
  "generate_price_catalogue exact_arith ''productList.json'' ''priceCatalogue.json'' products_world =
     (fst (generate_price_catalogue exact_arith ''productList.json'' ''priceCatalogue.json'' products_world),
      Inr (JList [JObj [(''title'', JStr ''Widget''), (''price'', JInt 2)]])) \<and>
   map entry_title [JObj [(''title'', JStr ''Widget''), (''price'', JInt 2 :: rat json)]] =
   map entry_title [JObj [(''title'', JStr ''Widget''), (''type'', JStr ''tool''), (''price'', JInt 2)]]"
proof -
  let ?items = "[JObj [(''title'', JStr ''Widget''), (''type'', JStr ''tool''), (''price'', JInt 2)]] :: rat json list"
  let ?cat = "JList [JObj [(''title'', JStr ''Widget''), (''price'', JInt 2)]] :: rat json"
  let ?run = "generate_price_catalogue exact_arith ''productList.json'' ''priceCatalogue.json'' products_world"
  have a: "files products_world ''priceCatalogue.json'' = None" by (simp add: products_world_def)
  have b: "files products_world ''productList.json'' = Some (Doc (JList ?items))"
    by (simp add: products_world_def)
  have c: "py_iter (JList ?items) = Inr ?items" by simp
  have "snd ?run = Inr ?cat"
    by (simp add: generate_price_catalogue_def load_json_file_def products_world_def emit_def
        write_file_def)
  then have d: "?run = (fst ?run, Inr ?cat)" by (cases ?run) simp
  from catalogue_keeps_the_titles [OF a b c d] d show ?thesis by auto
qed




section \<open>Runs that abort\<close>

lemma py_len_0_falsy: "py_len v = Inr 0 \<Longrightarrow> \<not> py_truthy A v"
  by (cases v) auto

lemma load_json_file_effect:
  "load_json_file filename w = (w', r) \<Longrightarrow> \<exists>evs. w' = printed evs w"
  using load_json_file_pure [of filename w] by simp

lemma load_unusable:
  assumes "unusable w filename"
  shows "\<exists>evs v. load_json_file filename w = (printed evs w, Inr v) \<and> \<not> py_truthy A v"
proof (cases "\<exists>data. files w filename = Some (Doc data)")
  case False
  then have "load_json_file filename w =
      (printed [Loading filename, LoadError filename] w, Inr (JList []))"
    by (simp add: load_json_file_failed)
  moreover have "\<not> py_truthy A (JList [])" by simp
  ultimately show ?thesis by blast
next
  case True
  then obtain data where d: "files w filename = Some (Doc data)" by blast
  with assms have len: "py_len data = Inr 0" by (simp add: unusable_def)
  with d have "load_json_file filename w =
      (printed [Loading filename, Loaded filename 0] w, Inr data)"
    by (rule load_json_file_doc)
  moreover from len have "\<not> py_truthy A data" by (rule py_len_0_falsy)
  ultimately show ?thesis by blast
qed

lemma load_sized:
  assumes "sized_if_json w filename"
  shows "\<exists>evs v. load_json_file filename w = (printed evs w, Inr v)"
proof (cases "\<exists>data. files w filename = Some (Doc data)")
  case False
  then have "load_json_file filename w =
      (printed [Loading filename, LoadError filename] w, Inr (JList []))"
    by (simp add: load_json_file_failed)
  then show ?thesis by blast
next
  case True
  then obtain data where d: "files w filename = Some (Doc data)" by blast
  with assms obtain n where "py_len data = Inr n"
    by (cases "py_len data") (auto simp: sized_if_json_def)
  with d have "load_json_file filename w =
      (printed [Loading filename, Loaded filename n] w, Inr data)"
    by (rule load_json_file_doc)
  then show ?thesis by blast
qed

lemma generate_unusable:
  assumes "if files w catalogue_file = None then unusable w product_list_file
           else unusable w catalogue_file"
  shows "\<exists>evs v. generate_price_catalogue A product_list_file catalogue_file w =
           (printed evs w, Inr v) \<and> \<not> py_truthy A v"
proof (cases "files w catalogue_file = None")
  case False
  with assms have "unusable w catalogue_file" by simp
  from load_unusable [OF this, of A] False show ?thesis by (simp add: generate_warm)
next
  case True
  with assms have "unusable w product_list_file" by simp
  from load_unusable [OF this, of A] obtain evs v where
    l: "load_json_file product_list_file w = (printed evs w, Inr v)" and f: "\<not> py_truthy A v"
    by blast
  from True l f have "generate_price_catalogue A product_list_file catalogue_file w =
      (printed (evs @ [ProductListEmpty]) w, Inr (JList []))"
    by (simp add: generate_price_catalogue_def emit_printed)
  moreover have "\<not> py_truthy A (JList [])" by simp
  ultimately show ?thesis by blast
qed

lemma generate_effect:
  assumes "generate_price_catalogue A product_list_file catalogue_file w = (w', r)"
  shows "(\<exists>evs. out w' = out w @ evs) \<and>
         ((files w' = files w \<and> writes w' = writes w) \<or>
          (files w catalogue_file = None \<and>
           (\<exists>entries. files w' = (files w)(catalogue_file \<mapsto> Doc (JList entries))) \<and>
           writes w' = writes w @ [catalogue_file]))"
proof (cases "files w catalogue_file = None")
  case False
  with assms have "load_json_file catalogue_file w = (w', r)" by (simp add: generate_warm)
  from load_json_file_effect [OF this] show ?thesis by auto
next
  case True
  let ?derivable = "\<exists>product_list items entries.
               files w product_list_file = Some (Doc product_list) \<and>
               py_iter product_list = Inr items \<and> items \<noteq> [] \<and>
               catalogue_entries items = Inr entries"
  show ?thesis
  proof (cases ?derivable)
    case d: True
    then obtain product_list items entries where
      "files w product_list_file = Some (Doc product_list)" "py_iter product_list = Inr items"
      "items \<noteq> []" "catalogue_entries items = Inr entries" by blast
    from generate_cold_written [OF True this, of A] assms
    have "w' = emit (Generated catalogue_file (length items))
        (write_file catalogue_file (Doc (JList entries))
           (printed [Loading product_list_file, Loaded product_list_file (length items)] w))"
      by simp
    with True show ?thesis by (auto simp: emit_def write_file_def)
  next
    case d: False
    from generate_cold_not_written [OF True d, of A] assms
    obtain evs where "w' = printed evs w" by auto
    then show ?thesis by simp
  qed
qed

lemma generate_returns:
  assumes "if files w catalogue_file = None then products_if_json w product_list_file
           else sized_if_json w catalogue_file"
  shows "\<exists>w1 v. generate_price_catalogue A product_list_file catalogue_file w = (w1, Inr v)"
proof (cases "files w catalogue_file = None")
  case False
  with assms have "sized_if_json w catalogue_file" by simp
  from load_sized [OF this] False show ?thesis by (simp add: generate_warm) blast
next
  case True
  show ?thesis
  proof (cases "\<exists>data. files w product_list_file = Some (Doc data)")
    case no_doc: False
    with True have "generate_price_catalogue A product_list_file catalogue_file w =
        (printed [Loading product_list_file, LoadError product_list_file, ProductListEmpty] w,
         Inr (JList []))"
      by (simp add: generate_price_catalogue_def load_json_file_failed emit_printed)
    then show ?thesis by blast
  next
    case doc: True
    then obtain data where d: "files w product_list_file = Some (Doc data)" by blast
    with assms True obtain items where it: "py_iter data = Inr items"
      and ok: "list_all is_product items"
      by (cases "py_iter data") (auto simp: products_if_json_def)
    show ?thesis
    proof (cases "items = []")
      case empty: True
      from it have len: "py_len data = Inr (length items)" by (rule py_iter_len)
      from it empty have "\<not> py_truthy A data" by (simp add: py_iter_truthy)
      with True d len have "generate_price_catalogue A product_list_file catalogue_file w =
          (printed [Loading product_list_file, Loaded product_list_file (length items),
             ProductListEmpty] w, Inr (JList []))"
        by (simp add: generate_price_catalogue_def load_json_file_doc emit_printed)
      then show ?thesis by blast
    next
      case nonempty: False
      from ok have "catalogue_entries items = Inr (map title_and_price items)"
        by (rule catalogue_entries_products)
      from generate_cold_written [OF True d it nonempty this, of A] show ?thesis by blast
    qed
  qed
qed

lemma load_sales_files_effect:
  "load_sales_files sales_files w = (w', r) \<Longrightarrow> \<exists>evs. w' = printed evs w"
proof (induction sales_files arbitrary: w w' r)
  case Nil
  then have "w' = printed [] w" by simp
  then show ?case by blast
next
  case (Cons f fs)
  obtain w1 r1 where l: "load_json_file f w = (w1, r1)" by (cases "load_json_file f w") auto
  from load_json_file_effect [OF l] obtain evs1 where w1: "w1 = printed evs1 w" by blast
  show ?case
  proof (cases r1)
    case (Inl e)
    with Cons.prems l have "w' = w1" by simp
    with w1 show ?thesis by blast
  next
    case (Inr d)
    obtain w2 r2 where ls: "load_sales_files fs w1 = (w2, r2)"
      by (cases "load_sales_files fs w1") auto
    from Cons.IH [OF ls] obtain evs2 where "w2 = printed evs2 w1" by blast
    moreover from Cons.prems l Inr ls have "w' = w2" by (cases r2) auto
    ultimately have "w' = printed (evs1 @ evs2) w" using w1 by simp
    then show ?thesis by blast
  qed
qed

lemma load_sales_files_returns:
  "\<forall>f\<in>set sales_files. \<forall>data. files w f = Some (Doc data) \<longrightarrow> (\<exists>n. py_len data = Inr n) \<Longrightarrow>
   \<exists>w2 sales_data_list. load_sales_files sales_files w = (w2, Inr sales_data_list)"
proof (induction sales_files arbitrary: w)
  case Nil
  show ?case by simp
next
  case (Cons f fs)
  have "sized_if_json w f"
  proof (cases "\<exists>data. files w f = Some (Doc data)")
    case True
    then obtain data where d: "files w f = Some (Doc data)" by blast
    with Cons.prems obtain n where "py_len data = Inr n" by auto
    with d show ?thesis by (simp add: sized_if_json_def)
  next
    case False
    then show ?thesis by (cases "files w f") (auto simp: sized_if_json_def split: content.splits)
  qed
  from load_sized [OF this] obtain evs v where l: "load_json_file f w = (printed evs w, Inr v)"
    by blast
  have "\<forall>g\<in>set fs. \<forall>data. files (printed evs w) g = Some (Doc data) \<longrightarrow> (\<exists>n. py_len data = Inr n)"
    using Cons.prems by simp
  from Cons.IH [OF this] obtain w2 ds where "load_sales_files fs (printed evs w) = (w2, Inr ds)"
    by blast
  with l show ?case by simp
qed

lemma load_sales_files_unusable:
  assumes "sales_file \<in> set sales_files" and "unusable w sales_file"
    and "load_sales_files sales_files w = (w', Inr sales_data_list)"
  shows "\<exists>fd\<in>set (zip sales_files sales_data_list). \<not> py_truthy A (snd fd)"
  using assms
proof (induction sales_files arbitrary: w w' sales_data_list)
  case Nil
  then show ?case by simp
next
  case (Cons f fs)
  obtain w1 r1 where l: "load_json_file f w = (w1, r1)" by (cases "load_json_file f w") auto
  with Cons.prems(3) obtain d where r1: "r1 = Inr d" by (cases r1) auto
  obtain w2 r2 where ls: "load_sales_files fs w1 = (w2, r2)"
    by (cases "load_sales_files fs w1") auto
  with Cons.prems(3) l r1 obtain ds where r2: "r2 = Inr ds" by (cases r2) auto
  from Cons.prems(3) l r1 ls r2 have sdl: "sales_data_list = d # ds" by simp
  show ?case
  proof (cases "sales_file = f")
    case True
    with Cons.prems(2) have "unusable w f" by simp
    from load_unusable [OF this, of A] l r1 have "\<not> py_truthy A d" by auto
    with sdl show ?thesis by simp
  next
    case False
    with Cons.prems(1) have "sales_file \<in> set fs" by simp
    moreover from load_json_file_effect [OF l] Cons.prems(2) have "unusable w1 sales_file"
      by (auto simp: unusable_def)
    moreover from ls r2 have "load_sales_files fs w1 = (w2, Inr ds)" by simp
    ultimately have "\<exists>fd\<in>set (zip fs ds). \<not> py_truthy A (snd fd)" by (rule Cons.IH)
    with sdl show ?thesis by auto
  qed
qed


lemma main_usage:
  "length argv < 3 \<Longrightarrow> main A argv start_time end_time w = (printed [Usage] w, Exited 1)"
  by (simp add: main_def emit_printed)

lemma main_no_catalogue:
  "\<not> length argv < 3 \<Longrightarrow>
   generate_price_catalogue A (argv ! 1) catalogue_path w = (w1, Inr catalogue) \<Longrightarrow>
   \<not> py_truthy A catalogue \<Longrightarrow>
   main A argv start_time end_time w = (printed [CatalogueError] w1, Exited 1)"
  by (simp add: main_def emit_printed)

lemma main_bad_sales_file:
  "\<not> length argv < 3 \<Longrightarrow>
   generate_price_catalogue A (argv ! 1) catalogue_path w = (w1, Inr catalogue) \<Longrightarrow>
   py_truthy A catalogue \<Longrightarrow>
   load_sales_files (drop 2 argv) w1 = (w2, Inr sales_data_list) \<Longrightarrow>
   find (\<lambda>fd. \<not> py_truthy A (snd fd)) (zip (drop 2 argv) sales_data_list) = Some fd \<Longrightarrow>
   main A argv start_time end_time w = (printed [SalesFileError (fst fd)] w2, Exited 1)"
  by (simp add: main_def emit_printed)

lemma main_fatal_at_start:
  assumes "fatal_at_start w argv"
  shows "\<exists>evs. main A argv start_time end_time w = (printed evs w, Exited 1) \<and>
           evs \<noteq> [] \<and> is_diagnostic (last evs)"
proof (cases "length argv < 3")
  case True
  then have "main A argv start_time end_time w = (printed [Usage] w, Exited 1)"
    by (rule main_usage)
  moreover have "[Usage] \<noteq> []" and "is_diagnostic (last [Usage :: 'a event])" by simp_all
  ultimately show ?thesis by blast
next
  case False
  with assms have "if files w catalogue_path = None then unusable w (argv ! 1)
      else unusable w catalogue_path" by (simp add: fatal_at_start_def)
  from generate_unusable [OF this, of A] obtain evs v where
    g: "generate_price_catalogue A (argv ! 1) catalogue_path w = (printed evs w, Inr v)"
    and f: "\<not> py_truthy A v" by blast
  from main_no_catalogue [OF False g f, where start_time = start_time and end_time = end_time]
  have "main A argv start_time end_time w = (printed (evs @ [CatalogueError]) w, Exited 1)"
    by simp
  moreover have "evs @ [CatalogueError] \<noteq> []"
    and "is_diagnostic (last (evs @ [CatalogueError]))" by simp_all
  ultimately show ?thesis by blast
qed

lemma main_bad_sales:
  assumes "bad_sales_file w argv" and "inputs_well_formed w argv"
  shows "\<exists>w1 r1 evs. generate_price_catalogue A (argv ! 1) catalogue_path w = (w1, r1) \<and>
           main A argv start_time end_time w = (printed evs w1, Exited 1) \<and>
           evs \<noteq> [] \<and> is_diagnostic (last evs)"
proof -
  from assms(1) obtain sales_file where
    f: "sales_file \<in> set (drop 2 argv)" and ne: "sales_file \<noteq> catalogue_path"
    and u: "unusable w sales_file"
    unfolding bad_sales_file_def by blast
  from f have "drop 2 argv \<noteq> []" by auto
  then have long: "\<not> length argv < 3" by simp
  from assms(2) have "if files w catalogue_path = None then products_if_json w (argv ! 1)
      else sized_if_json w catalogue_path" unfolding inputs_well_formed_def by blast
  from generate_returns [OF this, of A] obtain w1 catalogue where
    g: "generate_price_catalogue A (argv ! 1) catalogue_path w = (w1, Inr catalogue)" by blast
  show ?thesis
  proof (cases "py_truthy A catalogue")
    case False
    from main_no_catalogue [OF long g False, where start_time = start_time and end_time = end_time]
    have "main A argv start_time end_time w = (printed [CatalogueError] w1, Exited 1)" .
    moreover have "[CatalogueError] \<noteq> []" and "is_diagnostic (last [CatalogueError :: 'a event])"
      by simp_all
    ultimately show ?thesis using g by blast
  next
    case True
    from generate_effect [OF g] have fw: "files w1 = files w \<or>
        (\<exists>entries. files w1 = (files w)(catalogue_path \<mapsto> Doc (JList entries)))" by blast
    have sized: "\<forall>g\<in>set (drop 2 argv). \<forall>data. files w1 g = Some (Doc data) \<longrightarrow>
        (\<exists>n. py_len data = Inr n)"
    proof (intro ballI allI impI)
      fix g data
      assume gin: "g \<in> set (drop 2 argv)" and d: "files w1 g = Some (Doc data)"
      from assms(2) gin have s: "sized_if_json w g" by (simp add: inputs_well_formed_def)
      from fw show "\<exists>n. py_len data = Inr n"
      proof
        assume "files w1 = files w"
        with d s show ?thesis by (cases "py_len data") (auto simp: sized_if_json_def)
      next
        assume "\<exists>entries. files w1 = (files w)(catalogue_path \<mapsto> Doc (JList entries))"
        then obtain entries where
          e: "files w1 = (files w)(catalogue_path \<mapsto> Doc (JList entries))" by blast
        show ?thesis
        proof (cases "g = catalogue_path")
          case True
          with e d have "data = JList entries" by simp
          then show ?thesis by simp
        next
          case False
          with e d have "files w g = Some (Doc data)" by simp
          with s show ?thesis by (cases "py_len data") (auto simp: sized_if_json_def)
        qed
      qed
    qed
    from load_sales_files_returns [OF sized] obtain w2 sales_data_list where
      ls: "load_sales_files (drop 2 argv) w1 = (w2, Inr sales_data_list)" by blast
    from load_sales_files_effect [OF ls] obtain evs2 where w2: "w2 = printed evs2 w1" by blast
    from fw ne have "files w1 sales_file = files w sales_file" by auto
    with u have u1: "unusable w1 sales_file" by (simp add: unusable_def)
    from load_sales_files_unusable [OF f u1 ls, where A = A]
    obtain fd0 where "fd0 \<in> set (zip (drop 2 argv) sales_data_list)"
      and "\<not> py_truthy A (snd fd0)" by blast
    then have "find (\<lambda>fd. \<not> py_truthy A (snd fd)) (zip (drop 2 argv) sales_data_list) \<noteq> None"
      unfolding find_None_iff by blast
    then obtain fd where
      "find (\<lambda>fd. \<not> py_truthy A (snd fd)) (zip (drop 2 argv) sales_data_list) = Some fd"
      by auto
    from main_bad_sales_file [OF long g True ls this,
        where start_time = start_time and end_time = end_time] w2
    have "main A argv start_time end_time w =
        (printed (evs2 @ [SalesFileError (fst fd)]) w1, Exited 1)" by simp
    moreover have "evs2 @ [SalesFileError (fst fd)] \<noteq> []"
      and "is_diagnostic (last (evs2 @ [SalesFileError (fst fd)]))" by simp_all
    ultimately show ?thesis using g by blast
  qed
qed

text \<open>
  Claim C7, as stated, fails: with a product list, no cache and a missing sales file the run
  exits with status 1 after it has written the cache file.
\<close>

theorem cache_written_before_abort_counterexample:
  "files abort_world ''priceCatalogue.json'' = None \<and>
   files abort_world ''sales.json'' = None \<and>
   snd (main exact_arith [''computeSales.py'', ''productList.json'', ''sales.json''] 0 1 abort_world) =
     Exited 1 \<and>
   writes (fst (main exact_arith [''computeSales.py'', ''productList.json'', ''sales.json''] 0 1
     abort_world)) = [''priceCatalogue.json''] \<and>
   files (fst (main exact_arith [''computeSales.py'', ''productList.json'', ''sales.json''] 0 1
     abort_world)) ''priceCatalogue.json'' =
     Some (Doc (JList [JObj [(''title'', JStr ''Widget''), (''price'', JInt 2)]]))"
  by (simp add: main_def generate_price_catalogue_def load_json_file_def abort_world_def emit_def
      write_file_def catalogue_path_def Let_def)

text \<open>
  Claim C7, amended. On a fatal condition met before any sales file is read, the run prints
  a diagnostic last, exits with status 1 and writes no file at all. On an unusable sales
  file, with well-formed inputs, the run prints a diagnostic last, exits with status 1 and
  never writes the results file; the only file it may have written is the cache, and only
  when there was none.
\<close>

theorem fatal_run_aborts:
  assumes "main A argv start_time end_time w = (w', st)"
  shows "(fatal_at_start w argv \<longrightarrow>
            st = Exited 1 \<and>
            (\<exists>evs. out w' = out w @ evs \<and> evs \<noteq> [] \<and> is_diagnostic (last evs)) \<and>
            files w' = files w \<and> writes w' = writes w) \<and>
         (bad_sales_file w argv \<and> inputs_well_formed w argv \<longrightarrow>
            st = Exited 1 \<and>
            (\<exists>evs. out w' = out w @ evs \<and> evs \<noteq> [] \<and> is_diagnostic (last evs)) \<and>
            files w' results_path = files w results_path \<and>
            (\<forall>path. path \<noteq> catalogue_path \<longrightarrow> files w' path = files w path) \<and>
            (writes w' = writes w \<or>
             (files w catalogue_path = None \<and> writes w' = writes w @ [catalogue_path])))"
proof (rule conjI; rule impI)
  assume "fatal_at_start w argv"
  from main_fatal_at_start [OF this, of A start_time end_time] assms obtain evs where
    "w' = printed evs w" and "st = Exited 1" and "evs \<noteq> []" and "is_diagnostic (last evs)"
    by auto
  then show "st = Exited 1 \<and>
      (\<exists>evs. out w' = out w @ evs \<and> evs \<noteq> [] \<and> is_diagnostic (last evs)) \<and>
      files w' = files w \<and> writes w' = writes w"
    by auto
next
  assume "bad_sales_file w argv \<and> inputs_well_formed w argv"
  then have b: "bad_sales_file w argv" and i: "inputs_well_formed w argv" by simp_all
  from main_bad_sales [OF b i, of A start_time end_time] assms obtain w1 r1 evs where
    g: "generate_price_catalogue A (argv ! 1) catalogue_path w = (w1, r1)"
    and w': "w' = printed evs w1" and st: "st = Exited 1"
    and ne: "evs \<noteq> []" and di: "is_diagnostic (last evs)"
    by auto
  from generate_effect [OF g] obtain evs1 where
    o: "out w1 = out w @ evs1" and
    fw: "(files w1 = files w \<and> writes w1 = writes w) \<or>
         (files w catalogue_path = None \<and>
          (\<exists>entries. files w1 = (files w)(catalogue_path \<mapsto> Doc (JList entries))) \<and>
          writes w1 = writes w @ [catalogue_path])"
    by blast
  from w' o have out: "out w' = out w @ (evs1 @ evs)" by simp
  from ne di have two: "evs1 @ evs \<noteq> [] \<and> is_diagnostic (last (evs1 @ evs))" by simp
  from out two have diag: "\<exists>evs. out w' = out w @ evs \<and> evs \<noteq> [] \<and> is_diagnostic (last evs)"
    by blast
  from fw w' have three: "\<forall>path. path \<noteq> catalogue_path \<longrightarrow> files w' path = files w path"
    by auto
  have "results_path \<noteq> catalogue_path" by (simp add: results_path_def catalogue_path_def)
  with three have four: "files w' results_path = files w results_path" by blast
  from fw w' have five: "writes w' = writes w \<or>
      (files w catalogue_path = None \<and> writes w' = writes w @ [catalogue_path])" by auto
  from st diag three four five show "st = Exited 1 \<and>
      (\<exists>evs. out w' = out w @ evs \<and> evs \<noteq> [] \<and> is_diagnostic (last evs)) \<and>
      files w' results_path = files w results_path \<and>
      (\<forall>path. path \<noteq> catalogue_path \<longrightarrow> files w' path = files w path) \<and>
      (writes w' = writes w \<or>
       (files w catalogue_path = None \<and> writes w' = writes w @ [catalogue_path]))"
    by blast
qed

theorem fatal_run_aborts_witness:
  "fatal_at_start empty_world [''computeSales.py'', ''productList.json'', ''sales.json''] \<and>
   snd (main exact_arith [''computeSales.py'', ''productList.json'', ''sales.json''] 0 1
     empty_world) = Exited 1 \<and>
   writes (fst (main exact_arith [''computeSales.py'', ''productList.json'', ''sales.json''] 0 1
     empty_world)) = [] \<and>
   bad_sales_file abort_world [''computeSales.py'', ''productList.json'', ''sales.json''] \<and>
   inputs_well_formed abort_world [''computeSales.py'', ''productList.json'', ''sales.json''] \<and>
   snd (main exact_arith [''computeSales.py'', ''productList.json'', ''sales.json''] 0 1
     abort_world) = Exited 1 \<and>
   files (fst (main exact_arith [''computeSales.py'', ''productList.json'', ''sales.json''] 0 1
     abort_world)) results_path = None"
proof -
  let ?argv = "[''computeSales.py'', ''productList.json'', ''sales.json'']"
  let ?early = "main exact_arith ?argv 0 1 empty_world"
  let ?late = "main exact_arith ?argv 0 1 abort_world"
  have a: "fatal_at_start empty_world ?argv"
    by (simp add: fatal_at_start_def unusable_def empty_world_def catalogue_path_def)
  have b: "bad_sales_file abort_world ?argv"
    by (simp add: bad_sales_file_def unusable_def abort_world_def catalogue_path_def)
  have c: "inputs_well_formed abort_world ?argv"
    by (simp add: inputs_well_formed_def products_if_json_def sized_if_json_def abort_world_def
        catalogue_path_def)
  have e: "?early = (fst ?early, snd ?early)" and l: "?late = (fst ?late, snd ?late)" by simp_all
  have n: "files abort_world results_path = None" by (simp add: abort_world_def results_path_def)
  from fatal_run_aborts [OF e] a
  have "snd ?early = Exited 1 \<and> writes (fst ?early) = writes empty_world" by blast
  moreover from fatal_run_aborts [OF l] b c
  have "snd ?late = Exited 1 \<and> files (fst ?late) results_path = files abort_world results_path"
    by blast
  ultimately show ?thesis using a b c n by (simp add: empty_world_def)
qed

end
